theory Spec2Isabelle
  imports Complex_Main "HOL-Library.Product_Lexorder"
begin

section \<open>Python strings, as far as the engine uses them\<close>

text \<open>
  A Python \<open>str\<close> is modelled as a \<open>string\<close> (a list of 8-bit characters), so the
  model speaks about ASCII text. \<open>str.lower\<close> maps the capital letters A-Z to a-z and
  leaves every other character alone; \<open>str.isspace\<close> (which \<open>str.strip\<close> and the
  regular-expression class \<open>\s\<close> follow) holds for the ASCII characters 0x09-0x0D,
  0x1C-0x1F and 0x20.
\<close>

definition lower_char :: "char \<Rightarrow> char" where
  "lower_char c =
     (case map_of (zip ''ABCDEFGHIJKLMNOPQRSTUVWXYZ'' ''abcdefghijklmnopqrstuvwxyz'') c of
        None \<Rightarrow> c
      | Some l \<Rightarrow> l)"

definition lower :: "string \<Rightarrow> string" where
  "lower s = map lower_char s"

definition isspace :: "char \<Rightarrow> bool" where
  "isspace c = (c \<in> set [CHR 0x09, CHR 0x0A, CHR 0x0B, CHR 0x0C, CHR 0x0D,
                           CHR 0x1C, CHR 0x1D, CHR 0x1E, CHR 0x1F, CHR 0x20])"

definition lstrip :: "string \<Rightarrow> string" where
  "lstrip s = dropWhile isspace s"

definition rstrip :: "string \<Rightarrow> string" where
  "rstrip s = rev (dropWhile isspace (rev s))"

definition strip :: "string \<Rightarrow> string" where
  "strip s = lstrip (rstrip s)"

text \<open>\<open>s.rstrip(":")\<close>: every trailing colon goes.\<close>

definition rstrip_colon :: "string \<Rightarrow> string" where
  "rstrip_colon s = rev (dropWhile (\<lambda>c. c = CHR '':'') (rev s))"

text \<open>\<open>a in b\<close> on strings: \<open>a\<close> occurs in \<open>b\<close> as a contiguous piece.\<close>

fun starts_with :: "string \<Rightarrow> string \<Rightarrow> bool" where
  "starts_with [] s = True"
| "starts_with (p # ps) [] = False"
| "starts_with (p # ps) (c # cs) = (p = c \<and> starts_with ps cs)"

fun contains :: "string \<Rightarrow> string \<Rightarrow> bool" where
  "contains a [] = (a = [])"
| "contains a (c # cs) = (starts_with a (c # cs) \<or> contains a cs)"

text \<open>\<open>s.split(sep)\<close> for a one-character separator; the result is never empty.\<close>

fun split_on :: "char \<Rightarrow> string \<Rightarrow> string list" where
  "split_on sep [] = [[]]"
| "split_on sep (c # cs) =
     (if c = sep then [] # split_on sep cs
      else (c # hd (split_on sep cs)) # tl (split_on sep cs))"

section \<open>Errors\<close>

text \<open>
  Every exception the modelled code can raise is a value. \<open>ValueError\<close> carries the
  message where the engine itself builds one; \<open>LibraryError\<close> stands for a document
  library refusing its input.
\<close>

datatype error =
    ValueError string
  | IndexError
  | AttributeError
  | JSONDecodeError
  | ReError
  | FileNotFoundError
  | SameFileError
  | LibraryError
  | KeyError
  | UnboundLocalError
  | IllegalCharacterError

section \<open>Step 1: \<open>read_form\<close>\<close>

text \<open>
  \<open>Path(file_path).suffix\<close> on a POSIX path: the name is the last component that is
  neither empty nor \<open>.\<close>; the suffix starts at the last dot of the name, provided that dot
  is neither the first nor the last character of the name.
\<close>

definition path_name :: "string \<Rightarrow> string" where
  "path_name p =
     (case rev (filter (\<lambda>x. x \<noteq> [] \<and> x \<noteq> ''.'') (split_on (CHR ''/'') p)) of
        [] \<Rightarrow> []
      | n # _ \<Rightarrow> n)"

definition suffix :: "string \<Rightarrow> string" where
  "suffix p =
     (let name = path_name p;
          tail = rev (takeWhile (\<lambda>c. c \<noteq> CHR ''.'') (rev name));
          i = length name - length tail - 1
      in if CHR ''.'' \<in> set name \<and> 0 < i \<and> i < length name - 1 then drop i name else [])"

text \<open>
  \<open>read_form\<close> ends in a call of one of the three readers, or raises. The model returns
  the call it makes: which reader, on which path.
\<close>

datatype reader_call =
    Call_read_xlsx string
  | Call_read_docx string
  | Call_read_pdf string

definition unsupported_message :: "string \<Rightarrow> string" where
  "unsupported_message ext =
     ''Unsupported file format: '' @ ext @ ''. Supported: xlsx, docx, pdf''"

definition read_form :: "string \<Rightarrow> error + reader_call" where
  "read_form file_path =
     (let ext = lower (suffix file_path) in
      if ext = ''.xlsx'' then Inr (Call_read_xlsx file_path)
      else if ext \<in> set [''.docx'', ''.doc''] then Inr (Call_read_docx file_path)
      else if ext = ''.pdf'' then Inr (Call_read_pdf file_path)
      else Inl (ValueError (unsupported_message ext)))"

subsection \<open>Properties of \<open>read_form\<close>\<close>

text \<open>
  C5, as stated, fails: the extension \<open>.doc\<close> is not one of the three supported formats,
  yet \<open>read_form\<close> does not reject \<open>form.doc\<close>; it hands the path to the word-processor
  reader.
\<close>

theorem read_form_doc_counterexample:
  "lower (suffix ''form.doc'') \<notin> set [''.xlsx'', ''.docx'', ''.pdf''] \<and>
   read_form ''form.doc'' = Inr (Call_read_docx ''form.doc'')"
  by (simp add: read_form_def suffix_def path_name_def lower_def lower_char_def)

text \<open>
  C5, amended: \<open>read_form\<close> raises the unsupported-format \<open>ValueError\<close>, before any reader
  is called, exactly for the paths whose lower-cased extension is none of \<open>.xlsx\<close>,
  \<open>.docx\<close>, \<open>.doc\<close>, \<open>.pdf\<close>; for each of those four extensions it raises nothing itself
  and calls the reader of the format (\<open>.doc\<close> goes to the word-processor reader).
\<close>

theorem read_form_unsupported:
  "(lower (suffix p) \<notin> set [''.xlsx'', ''.docx'', ''.doc'', ''.pdf''] \<longrightarrow>
      read_form p = Inl (ValueError (unsupported_message (lower (suffix p))))) \<and>
   (lower (suffix p) = ''.xlsx'' \<longrightarrow> read_form p = Inr (Call_read_xlsx p)) \<and>
   (lower (suffix p) \<in> set [''.docx'', ''.doc''] \<longrightarrow> read_form p = Inr (Call_read_docx p)) \<and>
   (lower (suffix p) = ''.pdf'' \<longrightarrow> read_form p = Inr (Call_read_pdf p))"
  by (auto simp: read_form_def Let_def)

theorem read_form_unsupported_witness:
  "read_form ''notes.txt'' = Inl (ValueError (unsupported_message ''.txt'')) \<and>
   read_form ''/in/Blank.XLSX'' = Inr (Call_read_xlsx ''/in/Blank.XLSX'') \<and>
   read_form ''a.docx'' = Inr (Call_read_docx ''a.docx'') \<and>
   read_form ''b.v2.pdf'' = Inr (Call_read_pdf ''b.v2.pdf'')"
proof -
  have e1: "lower (suffix ''notes.txt'') = ''.txt''"
    by (simp add: suffix_def path_name_def lower_def lower_char_def)
  have e2: "lower (suffix ''/in/Blank.XLSX'') = ''.xlsx''"
    by (simp add: suffix_def path_name_def lower_def lower_char_def)
  have e3: "lower (suffix ''a.docx'') = ''.docx''"
    by (simp add: suffix_def path_name_def lower_def lower_char_def)
  have e4: "lower (suffix ''b.v2.pdf'') = ''.pdf''"
    by (simp add: suffix_def path_name_def lower_def lower_char_def)
  show ?thesis
    using read_form_unsupported [of "''notes.txt''"]
          read_form_unsupported [of "''/in/Blank.XLSX''"]
          read_form_unsupported [of "''a.docx''"]
          read_form_unsupported [of "''b.v2.pdf''"]
    by (simp add: e1 e2 e3 e4)
qed

section \<open>Step 2: \<open>map_fields\<close>\<close>

text \<open>
  What \<open>json.loads\<close> returns. The decoder itself belongs to the standard library; the
  model takes it as the parameter \<open>loads\<close>, with \<open>None\<close> for the \<open>JSONDecodeError\<close> it
  raises on text that is not JSON.
\<close>

datatype json =
    JNull
  | JBool bool
  | JNum int
  | JStr string
  | JArr "json list"
  | JObj "(string \<times> json) list"

text \<open>
  The request to the mapping service is outside the model; the text of its response is
  the input. The text handling of \<open>map_fields\<close>, applied to that text:
  \<open>strip()\<close>; then, when the text starts with a code fence, \<open>split("\n", 1)[1]\<close> (which
  raises \<open>IndexError\<close> when there is no line break) and \<open>rsplit(fence, 1)[0]\<close> (the part
  before the last fence, the whole text when there is none).
\<close>

definition fence :: string where
  "fence = ''```''"

definition after_first_newline :: "string \<Rightarrow> string option" where
  "after_first_newline s =
     (case dropWhile (\<lambda>c. c \<noteq> CHR 0x0A) s of [] \<Rightarrow> None | nl # rest \<Rightarrow> Some rest)"

fun before_last_fence :: "string \<Rightarrow> string option" where
  "before_last_fence [] = None"
| "before_last_fence (c # cs) =
     (case before_last_fence cs of
        Some r \<Rightarrow> Some (c # r)
      | None \<Rightarrow> if starts_with fence (c # cs) then Some [] else None)"

definition strip_fence :: "string \<Rightarrow> error + string" where
  "strip_fence text =
     (let raw = strip text in
      if starts_with fence raw
      then (case after_first_newline raw of
              None \<Rightarrow> Inl IndexError
            | Some body \<Rightarrow>
                (case before_last_fence body of None \<Rightarrow> Inr body | Some r \<Rightarrow> Inr r))
      else Inr raw)"

text \<open>\<open>map_fields\<close> returns whatever the decoder returns.\<close>

definition map_fields :: "(string \<Rightarrow> json option) \<Rightarrow> string \<Rightarrow> error + json" where
  "map_fields loads text =
     (case strip_fence text of
        Inl e \<Rightarrow> Inl e
      | Inr raw \<Rightarrow> (case loads raw of None \<Rightarrow> Inl JSONDecodeError | Some v \<Rightarrow> Inr v))"

definition is_array :: "json \<Rightarrow> bool" where
  "is_array v = (case v of JArr xs \<Rightarrow> True | _ \<Rightarrow> False)"

text \<open>
  A decoder for the sample runs. It knows two texts and refuses the rest; every JSON
  decoder agrees with it on the empty object, the empty array and the refused sentence
  used below.
\<close>

definition sample_loads :: "string \<Rightarrow> json option" where
  "sample_loads s =
     (if s = ''{}'' then Some (JObj [])
      else if s = ''[]'' then Some (JArr [])
      else None)"

subsection \<open>Properties of \<open>map_fields\<close>\<close>

lemma before_last_fence_end: "before_last_fence (body @ fence) = Some body"
  by (induction body) (simp_all add: fence_def)

lemma starts_with_append: "starts_with p (p @ s)"
  by (induction p) simp_all

lemma strip_no_space:
  assumes "s \<noteq> []" "\<not> isspace (hd s)" "\<not> isspace (last s)"
  shows "strip s = s"
proof -
  have "dropWhile isspace (rev s) = rev s"
    using assms by (simp add: dropWhile_eq_self_iff hd_rev)
  moreover have "dropWhile isspace s = s"
    using assms by (simp add: dropWhile_eq_self_iff)
  ultimately show ?thesis by (simp add: strip_def lstrip_def rstrip_def)
qed

lemma strip_fence_wrapped:
  assumes "CHR 0x0A \<notin> set lang"
  shows "strip_fence (fence @ lang @ CHR 0x0A # body @ fence) = Inr body"
proof -
  let ?t = "fence @ lang @ CHR 0x0A # body @ fence"
  have s: "strip ?t = ?t"
    by (rule strip_no_space) (simp_all add: fence_def isspace_def)
  have "dropWhile (\<lambda>c. c \<noteq> CHR 0x0A) ((fence @ lang) @ (CHR 0x0A # body @ fence)) =
        dropWhile (\<lambda>c. c \<noteq> CHR 0x0A) (CHR 0x0A # body @ fence)"
    by (rule dropWhile_append2) (use assms in \<open>auto simp: fence_def\<close>)
  then have a: "after_first_newline ?t = Some (body @ fence)"
    by (simp add: after_first_newline_def)
  have w: "starts_with fence ?t" by (rule starts_with_append)
  show ?thesis
    unfolding strip_fence_def s Let_def using w a by (simp add: before_last_fence_end)
qed

lemma after_first_newline_None:
  "after_first_newline s = None \<longleftrightarrow> CHR 0x0A \<notin> set s"
  by (induction s) (simp_all add: after_first_newline_def)

lemma strip_fence_fails:
  "strip_fence s = Inl e \<longleftrightarrow>
     starts_with fence (strip s) \<and> CHR 0x0A \<notin> set (strip s) \<and> e = IndexError"
proof (cases "starts_with fence (strip s)")
  case False
  then show ?thesis by (simp add: strip_fence_def)
next
  case True
  show ?thesis
  proof (cases "after_first_newline (strip s)")
    case None
    with True after_first_newline_None [of "strip s"] show ?thesis
      by (auto simp: strip_fence_def)
  next
    case (Some body)
    with after_first_newline_None [of "strip s"] have "CHR 0x0A \<in> set (strip s)" by auto
    with True Some show ?thesis
      by (simp add: strip_fence_def split: option.splits)
  qed
qed

lemma map_fields_Inl:
  "map_fields loads s = Inl e \<longleftrightarrow>
     strip_fence s = Inl e \<or> (\<exists>raw. strip_fence s = Inr raw \<and> loads raw = None \<and> e = JSONDecodeError)"
  by (cases "strip_fence s"; cases "loads (projr (strip_fence s))") (auto simp: map_fields_def)

text \<open>
  C4, as stated, fails: a response whose top level is a JSON object is not rejected;
  \<open>map_fields\<close> returns the object.
\<close>

theorem map_fields_object_counterexample:
  "sample_loads ''{}'' = Some (JObj []) \<and> \<not> is_array (JObj []) \<and>
   map_fields sample_loads ''{}'' = Inr (JObj [])"
  by (simp add: map_fields_def strip_fence_def sample_loads_def is_array_def strip_def lstrip_def
      rstrip_def isspace_def fence_def)

text \<open>
  C4, amended: \<open>map_fields\<close> raises exactly when the response text, stripped and freed of
  an optional code fence, is not decodable JSON (\<open>JSONDecodeError\<close>), or when the stripped
  text starts with a fence and has no line break (\<open>IndexError\<close>). Every decodable response
  is returned as decoded, whatever its top-level value. A text that does not start with a
  fence is decoded as stripped; a text wrapped as fence, language tag, line break, body,
  fence is decoded as its body.
\<close>

theorem map_fields_fails_iff:
  "(map_fields loads response = Inl e \<longleftrightarrow>
      starts_with fence (strip response) \<and> CHR 0x0A \<notin> set (strip response) \<and> e = IndexError \<or>
      (\<exists>raw. strip_fence response = Inr raw \<and> loads raw = None \<and> e = JSONDecodeError)) \<and>
   (strip_fence response = Inr raw \<and> loads raw = Some v \<longrightarrow> map_fields loads response = Inr v) \<and>
   (\<not> starts_with fence (strip response) \<longrightarrow> strip_fence response = Inr (strip response)) \<and>
   (CHR 0x0A \<notin> set lang \<longrightarrow> strip_fence (fence @ lang @ CHR 0x0A # body @ fence) = Inr body)"
proof (intro conjI impI)
  show "map_fields loads response = Inl e \<longleftrightarrow>
      starts_with fence (strip response) \<and> CHR 0x0A \<notin> set (strip response) \<and> e = IndexError \<or>
      (\<exists>raw. strip_fence response = Inr raw \<and> loads raw = None \<and> e = JSONDecodeError)"
    unfolding map_fields_Inl strip_fence_fails ..
next
  assume "strip_fence response = Inr raw \<and> loads raw = Some v"
  then show "map_fields loads response = Inr v" by (simp add: map_fields_def)
next
  assume "\<not> starts_with fence (strip response)"
  then show "strip_fence response = Inr (strip response)" by (simp add: strip_fence_def)
next
  assume "CHR 0x0A \<notin> set lang"
  then show "strip_fence (fence @ lang @ CHR 0x0A # body @ fence) = Inr body"
    by (rule strip_fence_wrapped)
qed

theorem map_fields_fails_iff_witness:
  "map_fields sample_loads (''```json'' @ CHR 0x0A # ''[]'' @ ''```'') = Inr (JArr []) \<and>
   map_fields sample_loads '' {} '' = Inr (JObj []) \<and>
   map_fields sample_loads ''Sorry, I cannot help.'' = Inl JSONDecodeError"
proof -
  have f: "strip_fence (fence @ ''json'' @ CHR 0x0A # ''[]'' @ fence) = Inr ''[]''"
    using map_fields_fails_iff [of sample_loads "[]" IndexError "[]" JNull "''json''" "''[]''"]
    by simp
  have a: "map_fields sample_loads (''```json'' @ CHR 0x0A # ''[]'' @ ''```'') = Inr (JArr [])"
    using map_fields_fails_iff [of sample_loads "''```json'' @ CHR 0x0A # ''[]'' @ ''```''" IndexError
        "''[]''" "JArr []" "[]" "[]"] f
    by (simp add: sample_loads_def fence_def)
  have s1: "strip '' {} '' = ''{}''"
    by (simp add: strip_def lstrip_def rstrip_def isspace_def)
  have b: "map_fields sample_loads '' {} '' = Inr (JObj [])"
    using map_fields_fails_iff [of sample_loads "'' {} ''" IndexError "''{}''" "JObj []" "[]" "[]"]
    by (simp add: sample_loads_def fence_def s1)
  have s2: "strip ''Sorry, I cannot help.'' = ''Sorry, I cannot help.''"
    by (simp add: strip_def lstrip_def rstrip_def isspace_def)
  have c: "map_fields sample_loads ''Sorry, I cannot help.'' = Inl JSONDecodeError"
    using map_fields_fails_iff [of sample_loads "''Sorry, I cannot help.''" JSONDecodeError "[]" JNull "[]" "[]"]
    by (simp add: sample_loads_def fence_def s2)
  from a b c show ?thesis by simp
qed

section \<open>Field mappings\<close>

text \<open>
  One element of the mapping service's array. Each key holds text or is absent; a JSON
  \<open>null\<close> and a missing key both read as \<open>None\<close> under \<open>m.get(key)\<close>. The key
  \<open>value\<close> of the source is the field \<open>mvalue\<close> here. For \<open>form_label\<close>, \<open>None\<close> is the
  missing key (the source then takes its default text). Values of other JSON types, and a
  label given as JSON \<open>null\<close>, are outside the service's contract and outside this type.
\<close>

record field_mapping =
  form_cell :: "string option"
  form_label :: "string option"
  placeholder :: "string option"
  mvalue :: "string option"
  confidence :: "string option"

text \<open>
  The test every writer applies to an entry's value: \<open>value and value != "null"\<close>. A
  \<open>None\<close> and an empty text are false in Python.
\<close>

definition usable :: "string option \<Rightarrow> bool" where
  "usable v = (case v of None \<Rightarrow> False | Some s \<Rightarrow> s \<noteq> [] \<and> s \<noteq> ''null'')"

text \<open>
  A Python \<open>dict\<close> filled by assignments, as an association list in insertion order: a
  key that is already present keeps its place and takes the new value.
\<close>

fun dict_set :: "'k \<Rightarrow> 'v \<Rightarrow> ('k \<times> 'v) list \<Rightarrow> ('k \<times> 'v) list" where
  "dict_set k v [] = [(k, v)]"
| "dict_set k v ((k', v') # d) =
     (if k' = k then (k, v) # d else (k', v') # dict_set k v d)"

section \<open>The spreadsheet writer \<open>fill_xlsx\<close>\<close>

subsection \<open>The workbook, as the spreadsheet library presents it\<close>

text \<open>
  A worksheet holds its cells by (row, column), as the library's dict \<open>_cells\<close> does: a
  position has no cell, a cell with its value (\<open>None\<close> for a cell without one), or the
  placeholder that the library puts at every covered position of a merged range (its
  class \<open>MergedCell\<close>, whose value cannot be set). The merged ranges come in iteration
  order. A workbook is its sheets and the index of the active one.
\<close>

datatype sheet_cell = Cell "string option" | MergedCell

record cell_range =
  min_row :: nat
  min_col :: nat
  max_row :: nat
  max_col :: nat

record worksheet =
  title :: string
  cells :: "nat \<times> nat \<Rightarrow> sheet_cell option"
  merged_cells :: "cell_range list"

record workbook =
  sheets :: "worksheet list"
  active_index :: nat

text \<open>\<open>wb.active\<close>: the sheet at the active index, \<open>None\<close> when there is none.\<close>

definition active :: "workbook \<Rightarrow> worksheet option" where
  "active wb =
     (if active_index wb < length (sheets wb) then Some (sheets wb ! active_index wb)
      else None)"

text \<open>
  The spreadsheet library is not part of the repository. \<open>fill_xlsx\<close> reaches it through
  three calls, which are parameters of the model: \<open>coordinate_to_tuple(cell_ref)\<close>, which
  returns (row, column); \<open>ws.unmerge_cells(str(mc))\<close>; and \<open>ws[cell] = value\<close>. Each
  returns its result or raises. What the writer does is stated for every behaviour of
  these calls; the library as documented is the instance \<open>openpyxl\<close> further down.
\<close>

record library =
  coordinate_to_tuple :: "string \<Rightarrow> error + (nat \<times> nat)"
  unmerge_cells :: "worksheet \<Rightarrow> cell_range \<Rightarrow> error + worksheet"
  setitem :: "worksheet \<Rightarrow> string \<Rightarrow> string \<Rightarrow> error + worksheet"

subsection \<open>The writer\<close>

text \<open>The first loop of \<open>fill_xlsx\<close>: the dict \<open>cells_to_fill\<close>.\<close>

fun cells_to_fill_loop ::
  "field_mapping list \<Rightarrow> (string \<times> string) list \<Rightarrow> (string \<times> string) list" where
  "cells_to_fill_loop [] d = d"
| "cells_to_fill_loop (m # ms) d =
     (case (form_cell m, mvalue m) of
        (Some cell, Some v) \<Rightarrow>
          if cell \<noteq> [] \<and> v \<noteq> [] \<and> v \<noteq> ''null''
          then cells_to_fill_loop ms (dict_set cell v d)
          else cells_to_fill_loop ms d
      | _ \<Rightarrow> cells_to_fill_loop ms d)"

text \<open>
  The test of the unmerge loop: the cell lies in the range and is not its top-left
  (anchor) cell.
\<close>

definition non_anchor_inside :: "cell_range \<Rightarrow> nat \<times> nat \<Rightarrow> bool" where
  "non_anchor_inside mc p =
     (case p of (row, col) \<Rightarrow>
        min_row mc \<le> row \<and> row \<le> max_row mc \<and> min_col mc \<le> col \<and> col \<le> max_col mc
        \<and> \<not> (row = min_row mc \<and> col = min_col mc))"

text \<open>
  The inner loop over \<open>cells_to_fill\<close> for one merged range: \<open>True\<close> when it reaches the
  \<open>unmerge_cells\<close> call (and breaks), \<open>False\<close> when it runs to the end; it raises when
  \<open>coordinate_to_tuple\<close> raises on a key it comes to.
\<close>

fun hits_range :: "'a library_scheme \<Rightarrow> cell_range \<Rightarrow> string list \<Rightarrow> error + bool" where
  "hits_range L mc [] = Inr False"
| "hits_range L mc (cell_ref # refs) =
     (case coordinate_to_tuple L cell_ref of
        Inl e \<Rightarrow> Inl e
      | Inr p \<Rightarrow> if non_anchor_inside mc p then Inr True else hits_range L mc refs)"

text \<open>The outer loop, over a copy of the merged ranges.\<close>

fun unmerge_loop ::
  "'a library_scheme \<Rightarrow> cell_range list \<Rightarrow> string list \<Rightarrow> worksheet \<Rightarrow> error + worksheet" where
  "unmerge_loop L [] refs ws = Inr ws"
| "unmerge_loop L (mc # mcs) refs ws =
     (case hits_range L mc refs of
        Inl e \<Rightarrow> Inl e
      | Inr hit \<Rightarrow>
          if hit
          then (case unmerge_cells L ws mc of
                  Inl e \<Rightarrow> Inl e
                | Inr ws' \<Rightarrow> unmerge_loop L mcs refs ws')
          else unmerge_loop L mcs refs ws)"

text \<open>The last loop: write and count.\<close>

fun fill_loop ::
  "'a library_scheme \<Rightarrow> (string \<times> string) list \<Rightarrow> worksheet \<Rightarrow> nat \<Rightarrow> error + worksheet \<times> nat" where
  "fill_loop L [] ws filled = Inr (ws, filled)"
| "fill_loop L ((cell, v) # rest) ws filled =
     (case setitem L ws cell v of
        Inl e \<Rightarrow> Inl e
      | Inr ws' \<Rightarrow> fill_loop L rest ws' (filled + 1))"

text \<open>
  \<open>fill_xlsx\<close> on the workbook that \<open>load_workbook(input_path)\<close> returned; the result is
  the workbook that is handed to \<open>wb.save(output_path)\<close>, and the count. With no active
  sheet, \<open>ws\<close> is \<open>None\<close> and its first use raises.
\<close>

definition fill_xlsx ::
  "'a library_scheme \<Rightarrow> workbook \<Rightarrow> field_mapping list \<Rightarrow> error + workbook \<times> nat" where
  "fill_xlsx L wb mappings =
     (case active wb of
        None \<Rightarrow> Inl AttributeError
      | Some ws \<Rightarrow>
          (let cells_to_fill = cells_to_fill_loop mappings [] in
           case unmerge_loop L (merged_cells ws) (map fst cells_to_fill) ws of
             Inl e \<Rightarrow> Inl e
           | Inr ws1 \<Rightarrow>
               (case fill_loop L cells_to_fill ws1 0 of
                  Inl e \<Rightarrow> Inl e
                | Inr (ws2, filled) \<Rightarrow>
                    Inr (wb\<lparr>sheets := (sheets wb)[active_index wb := ws2]\<rparr>, filled))))"

subsection \<open>Target coordinates and affected ranges\<close>

text \<open>
  The target coordinates of a mapping sequence: the \<open>form_cell\<close> of every entry that has a
  cell and a usable value. A merged range is affected when some target coordinate, read
  as \<open>coordinate_to_tuple\<close> reads it, lies in it at a position other than the anchor.
\<close>

definition target_cells :: "field_mapping list \<Rightarrow> string set" where
  "target_cells ms = {c. \<exists>m \<in> set ms. form_cell m = Some c \<and> c \<noteq> [] \<and> usable (mvalue m)}"

definition affected :: "'a library_scheme \<Rightarrow> field_mapping list \<Rightarrow> cell_range \<Rightarrow> bool" where
  "affected L ms mc =
     (\<exists>c \<in> target_cells ms. \<exists>p. coordinate_to_tuple L c = Inr p \<and> non_anchor_inside mc p)"

text \<open>
  What the writer relies on for the merged ranges: \<open>unmerge_cells\<close>, when it returns, has
  taken the named range, and nothing else, out of the merged ranges; an assignment to a
  cell leaves the merged ranges alone.
\<close>

definition keeps_ranges :: "'a library_scheme \<Rightarrow> bool" where
  "keeps_ranges L =
     ((\<forall>ws mc ws'. unmerge_cells L ws mc = Inr ws' \<longrightarrow>
          merged_cells ws' = remove1 mc (merged_cells ws)) \<and>
      (\<forall>ws key v ws'. setitem L ws key v = Inr ws' \<longrightarrow> merged_cells ws' = merged_cells ws))"

subsection \<open>The loops\<close>

lemma dict_set_keys: "fst ` set (dict_set k v d) = insert k (fst ` set d)"
  by (induction d) (auto simp: rev_image_eqI split: if_splits)

lemma dict_set_distinct: "distinct (map fst d) \<Longrightarrow> distinct (map fst (dict_set k v d))"
proof (induction d)
  case Nil
  then show ?case by simp
next
  case (Cons a d)
  have "fst ` set (dict_set k v d) = insert k (fst ` set d)" by (rule dict_set_keys)
  with Cons show ?case by (cases a) auto
qed

lemma dict_set_entries: "set (dict_set k v d) \<subseteq> insert (k, v) (set d)"
  by (induction d) (auto split: if_splits)

lemma cells_to_fill_skip:
  "\<not> usable (mvalue m) \<Longrightarrow>
     cells_to_fill_loop (xs @ m # ys) d = cells_to_fill_loop (xs @ ys) d"
  by (induction xs arbitrary: d) (auto simp: usable_def split: option.splits)

lemma cells_to_fill_keys:
  "fst ` set (cells_to_fill_loop ms d) = fst ` set d \<union> target_cells ms"
proof (induction ms arbitrary: d)
  case Nil
  then show ?case by (simp add: target_cells_def)
next
  case (Cons m ms)
  have t: "target_cells (m # ms) =
      (case (form_cell m, mvalue m) of
         (Some cell, Some v) \<Rightarrow> if cell \<noteq> [] \<and> v \<noteq> [] \<and> v \<noteq> ''null'' then insert cell (target_cells ms) else target_cells ms
       | _ \<Rightarrow> target_cells ms)"
    by (auto simp: target_cells_def usable_def split: option.splits)
  show ?case
    by (simp add: Cons.IH t dict_set_keys split: option.splits)
qed

lemma cells_to_fill_distinct:
  "distinct (map fst d) \<Longrightarrow> distinct (map fst (cells_to_fill_loop ms d))"
  by (induction ms arbitrary: d) (auto simp: dict_set_distinct split: option.splits)

lemma cells_to_fill_entries:
  "(c, v) \<in> set (cells_to_fill_loop ms d) \<Longrightarrow>
     (c, v) \<in> set d \<or> (\<exists>m \<in> set ms. form_cell m = Some c \<and> mvalue m = Some v \<and> usable (mvalue m))"
proof (induction ms arbitrary: d)
  case Nil
  then show ?case by simp
next
  case (Cons m ms)
  show ?case
  proof (cases "\<exists>cell w. form_cell m = Some cell \<and> mvalue m = Some w \<and> cell \<noteq> [] \<and> w \<noteq> [] \<and> w \<noteq> ''null''")
    case True
    then obtain cell w where mw: "form_cell m = Some cell" "mvalue m = Some w" "cell \<noteq> []" "w \<noteq> []" "w \<noteq> ''null''"
      by blast
    with Cons.prems have "(c, v) \<in> set (cells_to_fill_loop ms (dict_set cell w d))" by simp
    from Cons.IH [OF this] dict_set_entries [of cell w d] mw show ?thesis
      by (auto simp: usable_def)
  next
    case False
    with Cons.prems have "(c, v) \<in> set (cells_to_fill_loop ms d)"
      by (auto split: option.splits if_splits)
    from Cons.IH [OF this] show ?thesis by auto
  qed
qed

text \<open>
  When the inner loop returns, its answer is whether some key, as the library reads it,
  lies in the range off the anchor.
\<close>

lemma hits_range_Inr:
  "hits_range L mc refs = Inr b \<Longrightarrow>
     b = (\<exists>r \<in> set refs. \<exists>p. coordinate_to_tuple L r = Inr p \<and> non_anchor_inside mc p)"
proof (induction refs)
  case Nil
  then show ?case by simp
next
  case (Cons r refs)
  show ?case
  proof (cases "coordinate_to_tuple L r")
    case (Inl e)
    with Cons.prems show ?thesis by simp
  next
    case (Inr p)
    show ?thesis
    proof (cases "non_anchor_inside mc p")
      case True
      with Inr Cons.prems have "b" by simp
      moreover have "\<exists>r' \<in> set (r # refs). \<exists>q. coordinate_to_tuple L r' = Inr q \<and> non_anchor_inside mc q"
        using Inr True by (intro bexI [of _ r] exI [of _ p]) simp_all
      ultimately show ?thesis by simp
    next
      case False
      with Inr Cons.prems have "hits_range L mc refs = Inr b" by simp
      from Cons.IH [OF this] Inr False show ?thesis by auto
    qed
  qed
qed

lemma hits_range_all_parse:
  "\<forall>r \<in> set refs. \<exists>p. coordinate_to_tuple L r = Inr p \<Longrightarrow>
     hits_range L mc refs =
       Inr (\<exists>r \<in> set refs. \<exists>p. coordinate_to_tuple L r = Inr p \<and> non_anchor_inside mc p)"
  by (induction refs) auto

lemma unmerge_loop_hits:
  "unmerge_loop L rem refs ws = Inr ws' \<Longrightarrow> \<forall>mc \<in> set rem. \<exists>b. hits_range L mc refs = Inr b"
proof (induction rem arbitrary: ws)
  case Nil
  then show ?case by simp
next
  case (Cons mc rem)
  from Cons.prems obtain hit where h: "hits_range L mc refs = Inr hit"
    by (cases "hits_range L mc refs") auto
  from Cons.prems h obtain ws1 where "unmerge_loop L rem refs ws1 = Inr ws'"
    by (cases hit) (auto split: sum.splits)
  from Cons.IH [OF this] h show ?case by simp
qed

lemma unmerge_loop_merged:
  "keeps_ranges L \<Longrightarrow> unmerge_loop L rem refs ws = Inr ws' \<Longrightarrow> merged_cells ws = kept @ rem \<Longrightarrow>
   \<forall>k \<in> set kept. hits_range L k refs = Inr False \<Longrightarrow>
   merged_cells ws' = kept @ filter (\<lambda>mc. hits_range L mc refs = Inr False) rem"
proof (induction rem arbitrary: ws kept)
  case Nil
  then show ?case by simp
next
  case (Cons mc rem)
  show ?case
  proof (cases "hits_range L mc refs")
    case (Inl e)
    with Cons.prems(2) show ?thesis by simp
  next
    case (Inr hit)
    show ?thesis
    proof (cases hit)
      case True
      with Inr Cons.prems(2) obtain ws1 where
        u: "unmerge_cells L ws mc = Inr ws1" and l: "unmerge_loop L rem refs ws1 = Inr ws'"
        by (auto split: sum.splits)
      from Cons.prems(1) u have m1: "merged_cells ws1 = remove1 mc (merged_cells ws)"
        unfolding keeps_ranges_def by blast
      from Cons.prems(4) Inr True have "mc \<notin> set kept" by auto
      with m1 Cons.prems(3) have "merged_cells ws1 = kept @ rem" by (simp add: remove1_append)
      from Cons.IH [OF Cons.prems(1) l this Cons.prems(4)] Inr True show ?thesis by simp
    next
      case False
      with Inr Cons.prems(2) have l: "unmerge_loop L rem refs ws = Inr ws'" by simp
      have m: "merged_cells ws = (kept @ [mc]) @ rem" using Cons.prems(3) by simp
      have "\<forall>k \<in> set (kept @ [mc]). hits_range L k refs = Inr False"
        using Cons.prems(4) Inr False by auto
      from Cons.IH [OF Cons.prems(1) l m this] Inr False show ?thesis by simp
    qed
  qed
qed

lemma fill_loop_count:
  "fill_loop L l ws filled = Inr (ws', n) \<Longrightarrow> n = filled + length l"
proof (induction l arbitrary: ws filled)
  case Nil
  then show ?case by simp
next
  case (Cons a l)
  obtain c v where a: "a = (c, v)" by (cases a)
  from Cons.prems a obtain ws1 where "fill_loop L l ws1 (filled + 1) = Inr (ws', n)"
    by (auto split: sum.splits)
  from Cons.IH [OF this] show ?case by simp
qed

lemma fill_loop_merged:
  "keeps_ranges L \<Longrightarrow> fill_loop L l ws filled = Inr (ws', n) \<Longrightarrow>
     merged_cells ws' = merged_cells ws"
proof (induction l arbitrary: ws filled)
  case Nil
  then show ?case by simp
next
  case (Cons a l)
  obtain c v where a: "a = (c, v)" by (cases a)
  from Cons.prems(2) a obtain ws1 where
    s: "setitem L ws c v = Inr ws1" and f: "fill_loop L l ws1 (filled + 1) = Inr (ws', n)"
    by (auto split: sum.splits)
  from Cons.prems(1) s have "merged_cells ws1 = merged_cells ws"
    unfolding keeps_ranges_def by blast
  with Cons.IH [OF Cons.prems(1) f] show ?case by simp
qed

lemma active_update:
  "active wb = Some ws \<Longrightarrow>
     active (wb\<lparr>sheets := (sheets wb)[active_index wb := ws2]\<rparr>) = Some ws2"
  by (auto simp: active_def split: if_splits)

lemma fill_xlsx_InrD:
  assumes "fill_xlsx L wb ms = Inr (wb', n)"
  obtains ws ws1 ws2 where
    "active wb = Some ws"
    "unmerge_loop L (merged_cells ws) (map fst (cells_to_fill_loop ms [])) ws = Inr ws1"
    "fill_loop L (cells_to_fill_loop ms []) ws1 0 = Inr (ws2, n)"
    "wb' = wb\<lparr>sheets := (sheets wb)[active_index wb := ws2]\<rparr>"
  using assms unfolding fill_xlsx_def Let_def
  by (auto split: option.splits sum.splits)

lemma affected_iff_refs:
  "affected L ms mc \<longleftrightarrow>
     (\<exists>r \<in> set (map fst (cells_to_fill_loop ms [])). \<exists>p.
         coordinate_to_tuple L r = Inr p \<and> non_anchor_inside mc p)"
  using cells_to_fill_keys [of ms "[]"] by (simp add: affected_def)

lemma fill_xlsx_merged_ranges:
  assumes lib: "keeps_ranges L" and run: "fill_xlsx L wb ms = Inr (wb', n)"
  obtains ws ws' where "active wb = Some ws" "active wb' = Some ws'"
    "merged_cells ws' = filter (\<lambda>mc. \<not> affected L ms mc) (merged_cells ws)"
proof -
  from run obtain ws ws1 ws2 where
    a: "active wb = Some ws" and
    u: "unmerge_loop L (merged_cells ws) (map fst (cells_to_fill_loop ms [])) ws = Inr ws1" and
    f: "fill_loop L (cells_to_fill_loop ms []) ws1 0 = Inr (ws2, n)" and
    w: "wb' = wb\<lparr>sheets := (sheets wb)[active_index wb := ws2]\<rparr>"
    by (rule fill_xlsx_InrD)
  let ?refs = "map fst (cells_to_fill_loop ms [])"
  from fill_loop_merged [OF lib f] have m2: "merged_cells ws2 = merged_cells ws1" .
  have hit: "hits_range L mc ?refs = Inr False \<longleftrightarrow> \<not> affected L ms mc"
    if "mc \<in> set (merged_cells ws)" for mc
  proof -
    from unmerge_loop_hits [OF u] that obtain b where b: "hits_range L mc ?refs = Inr b" by blast
    from hits_range_Inr [OF b] b show ?thesis unfolding affected_iff_refs by simp
  qed
  from unmerge_loop_merged [OF lib u, of "[]"]
  have "merged_cells ws1 = filter (\<lambda>mc. hits_range L mc ?refs = Inr False) (merged_cells ws)"
    by simp
  also have "\<dots> = filter (\<lambda>mc. \<not> affected L ms mc) (merged_cells ws)"
    by (rule filter_cong [OF refl]) (rule hit)
  finally have m: "merged_cells ws2 = filter (\<lambda>mc. \<not> affected L ms mc) (merged_cells ws)"
    using m2 by simp
  from a w have "active wb' = Some ws2" by (simp add: active_update)
  with a m that show thesis by blast
qed

subsection \<open>The library as documented\<close>

text \<open>
  \<open>str.upper\<close> on ASCII text, the decimal digits, the letters, and the column number of
  a run of capital letters in base 26 (A = 1).
\<close>

fun index_of :: "'a \<Rightarrow> 'a list \<Rightarrow> nat" where
  "index_of x [] = 0"
| "index_of x (y # ys) = (if x = y then 0 else Suc (index_of x ys))"

definition upper_char :: "char \<Rightarrow> char" where
  "upper_char c =
     (case map_of (zip ''abcdefghijklmnopqrstuvwxyz'' ''ABCDEFGHIJKLMNOPQRSTUVWXYZ'') c of
        None \<Rightarrow> c
      | Some u \<Rightarrow> u)"

definition upper :: "string \<Rightarrow> string" where
  "upper s = map upper_char s"

definition is_capital :: "char \<Rightarrow> bool" where
  "is_capital c = (c \<in> set ''ABCDEFGHIJKLMNOPQRSTUVWXYZ'')"

definition is_ascii_letter :: "char \<Rightarrow> bool" where
  "is_ascii_letter c =
     (c \<in> set ''ABCDEFGHIJKLMNOPQRSTUVWXYZabcdefghijklmnopqrstuvwxyz'')"

definition is_digit :: "char \<Rightarrow> bool" where
  "is_digit c = (c \<in> set ''0123456789'')"

definition column_index_from_string :: "string \<Rightarrow> nat" where
  "column_index_from_string ls =
     foldl (\<lambda>n c. 26 * n + Suc (index_of c ''ABCDEFGHIJKLMNOPQRSTUVWXYZ'')) 0 ls"

definition int_of_digits :: "string \<Rightarrow> nat" where
  "int_of_digits ds = foldl (\<lambda>n c. 10 * n + index_of c ''0123456789'') 0 ds"

text \<open>
  \<open>int(s)\<close> for the texts that \<open>coordinate_to_tuple\<close> hands to it, which start with a
  digit or are one character that is no digit: whitespace at the end (0x09-0x0D and 0x20)
  is skipped, and what is left must be decimal digits, where one underscore may stand
  between two digits, with at most 4300 digits in all. For any other text \<open>int\<close> raises
  \<open>ValueError\<close>, which is \<open>None\<close> here.
\<close>

definition int_space :: "char \<Rightarrow> bool" where
  "int_space c = (c \<in> set [CHR 0x09, CHR 0x0A, CHR 0x0B, CHR 0x0C, CHR 0x0D, CHR 0x20])"

fun digit_groups :: "string \<Rightarrow> bool" where
  "digit_groups [] = False"
| "digit_groups [c] = is_digit c"
| "digit_groups (c # d # cs) =
     (if is_digit c then digit_groups (d # cs)
      else c = CHR ''_'' \<and> is_digit d \<and> digit_groups (d # cs))"

definition int_text :: "string \<Rightarrow> nat option" where
  "int_text s =
     (let body = rev (dropWhile int_space (rev s)) in
      if body \<noteq> [] \<and> is_digit (hd body) \<and> digit_groups body \<and>
         length (filter is_digit body) \<le> 4300
      then Some (int_of_digits (filter is_digit body))
      else None)"

text \<open>
  The library's \<open>coordinate_to_tuple\<close>: the text is cut before its first digit (before
  its last character when it has no digit); the first piece, in capitals, must be a
  column name of one to three letters, and the second is read by \<open>int\<close>. The row is
  evaluated first, so a text that fails on both counts raises \<open>ValueError\<close>. The empty
  text leaves the loop variable unbound.
\<close>

definition utils_coordinate_to_tuple :: "string \<Rightarrow> error + (nat \<times> nat)" where
  "utils_coordinate_to_tuple coordinate =
     (if coordinate = [] then Inl UnboundLocalError
      else
        (let idx = (if list_ex is_digit coordinate
                    then length (takeWhile (\<lambda>c. \<not> is_digit c) coordinate)
                    else length coordinate - 1);
             col = upper (take idx coordinate);
             row = drop idx coordinate
         in case int_text row of
              None \<Rightarrow> Inl (ValueError row)
            | Some r \<Rightarrow>
                if col \<noteq> [] \<and> length col \<le> 3 \<and> list_all is_capital col
                then Inr (r, column_index_from_string col)
                else Inl KeyError))"

text \<open>
  The key of \<open>ws[key]\<close>. A key names one cell when it is an optional dollar sign, one to
  three letters of either case, an optional dollar sign and at most 4300 decimal digits,
  with at most one line break after them, and the row is from 1 to 1048576. For every other key the
  lookup raises, or returns a tuple of cells on which the assignment of a value raises;
  \<open>ValueError\<close> stands for all of these.
\<close>

definition skip_dollar :: "string \<Rightarrow> string" where
  "skip_dollar s = (case s of [] \<Rightarrow> [] | c # cs \<Rightarrow> if c = CHR ''$'' then cs else s)"

definition key_cell :: "string \<Rightarrow> error + (nat \<times> nat)" where
  "key_cell key =
     (let s1 = skip_dollar key;
          col = take 3 (takeWhile is_ascii_letter s1);
          s2 = skip_dollar (drop (length col) s1);
          row = takeWhile is_digit s2;
          rest = dropWhile is_digit s2
      in if col \<noteq> [] \<and> row \<noteq> [] \<and> (rest = [] \<or> rest = [CHR 0x0A]) \<and>
            length row \<le> 4300 \<and> 0 < int_of_digits row \<and> int_of_digits row < 1048577
         then Inr (int_of_digits row, column_index_from_string (upper col))
         else Inl (ValueError key))"

text \<open>
  \<open>ws[key] = value\<close>: the key is resolved to a cell, which is created when the sheet has
  none there. A placeholder of a merged range refuses a value. A cell takes the first
  32767 characters of the text, unless one of them is a control character that the
  library refuses (0x00-0x08, 0x0B, 0x0C, 0x0E-0x1F).
\<close>

definition illegal_character :: "char \<Rightarrow> bool" where
  "illegal_character c =
     (c \<in> set [CHR 0x00, CHR 0x01, CHR 0x02, CHR 0x03, CHR 0x04, CHR 0x05, CHR 0x06, CHR 0x07,
               CHR 0x08, CHR 0x0B, CHR 0x0C, CHR 0x0E, CHR 0x0F, CHR 0x10, CHR 0x11, CHR 0x12,
               CHR 0x13, CHR 0x14, CHR 0x15, CHR 0x16, CHR 0x17, CHR 0x18, CHR 0x19, CHR 0x1A,
               CHR 0x1B, CHR 0x1C, CHR 0x1D, CHR 0x1E, CHR 0x1F])"

definition check_string :: "string \<Rightarrow> error + string" where
  "check_string v =
     (if list_ex illegal_character (take 32767 v) then Inl IllegalCharacterError
      else Inr (take 32767 v))"

definition Worksheet_setitem :: "worksheet \<Rightarrow> string \<Rightarrow> string \<Rightarrow> error + worksheet" where
  "Worksheet_setitem ws key v =
     (case key_cell key of
        Inl e \<Rightarrow> Inl e
      | Inr p \<Rightarrow>
          if cells ws p = Some MergedCell then Inl AttributeError
          else
            (case check_string v of
               Inl e \<Rightarrow> Inl e
             | Inr s \<Rightarrow> Inr (ws\<lparr>cells := (cells ws)(p \<mapsto> Cell (Some s))\<rparr>)))"

text \<open>
  \<open>ws.unmerge_cells(str(mc))\<close>: raises when the range is not among the merged ranges;
  otherwise the range leaves the merged ranges and the cells at its positions, row by
  row and all but the first (the anchor), are deleted from the sheet, which raises
  \<open>KeyError\<close> at a position that has no cell.
\<close>

definition range_cells :: "cell_range \<Rightarrow> (nat \<times> nat) list" where
  "range_cells mc =
     concat (map (\<lambda>row. map (\<lambda>col. (row, col)) [min_col mc ..< Suc (max_col mc)])
                 [min_row mc ..< Suc (max_row mc)])"

fun delete_cells ::
  "(nat \<times> nat) list \<Rightarrow> (nat \<times> nat \<Rightarrow> sheet_cell option) \<Rightarrow>
     error + (nat \<times> nat \<Rightarrow> sheet_cell option)" where
  "delete_cells [] cs = Inr cs"
| "delete_cells (p # ps) cs =
     (if cs p = None then Inl KeyError else delete_cells ps (cs(p := None)))"

definition Worksheet_unmerge_cells :: "worksheet \<Rightarrow> cell_range \<Rightarrow> error + worksheet" where
  "Worksheet_unmerge_cells ws mc =
     (if mc \<notin> set (merged_cells ws) then Inl (ValueError ''Cell range is not merged'')
      else
        (case delete_cells (tl (range_cells mc)) (cells ws) of
           Inl e \<Rightarrow> Inl e
         | Inr cs \<Rightarrow> Inr (ws\<lparr>merged_cells := remove1 mc (merged_cells ws), cells := cs\<rparr>)))"

definition openpyxl :: library where
  "openpyxl =
     \<lparr>coordinate_to_tuple = utils_coordinate_to_tuple,
      unmerge_cells = Worksheet_unmerge_cells,
      setitem = Worksheet_setitem\<rparr>"

text \<open>
  A spreadsheet file, as far as the library reads and writes it here: for every sheet its
  title, the text of every cell that has one, and the references of its merged ranges;
  and the index of the active tab.
\<close>

record sheet_part =
  part_title :: string
  part_values :: "nat \<times> nat \<Rightarrow> string option"
  part_merges :: "cell_range list"

record xlsx_file =
  parts :: "sheet_part list"
  active_tab :: nat

text \<open>
  \<open>load_workbook\<close>: every cell of the file becomes a cell of the sheet; then, for every
  merged range in turn, the anchor gets a cell when it has none, and every other position
  of the range gets a placeholder in place of whatever was there.
\<close>

definition bind_merged_cells ::
  "cell_range \<Rightarrow> (nat \<times> nat \<Rightarrow> sheet_cell option) \<Rightarrow> (nat \<times> nat \<Rightarrow> sheet_cell option)" where
  "bind_merged_cells mc cs =
     (\<lambda>p. if non_anchor_inside mc p then Some MergedCell
          else if p = (min_row mc, min_col mc) \<and> cs p = None then Some (Cell None)
          else cs p)"

definition load_sheet :: "sheet_part \<Rightarrow> worksheet" where
  "load_sheet part =
     \<lparr>title = part_title part,
      cells = foldl (\<lambda>cs mc. bind_merged_cells mc cs)
                (\<lambda>p. map_option (\<lambda>v. Cell (Some v)) (part_values part p)) (part_merges part),
      merged_cells = part_merges part\<rparr>"

definition load_workbook :: "xlsx_file \<Rightarrow> workbook" where
  "load_workbook f = \<lparr>sheets = map load_sheet (parts f), active_index = active_tab f\<rparr>"

text \<open>
  \<open>wb.save\<close>: a cell is written with its text; a cell without a value, a cell with the
  empty text and a placeholder are written without one.
\<close>

definition save_sheet :: "worksheet \<Rightarrow> sheet_part" where
  "save_sheet ws =
     \<lparr>part_title = title ws,
      part_values = (\<lambda>p. case cells ws p of
                           Some (Cell (Some v)) \<Rightarrow> if v = [] then None else Some v
                         | _ \<Rightarrow> None),
      part_merges = merged_cells ws\<rparr>"

definition save :: "workbook \<Rightarrow> xlsx_file" where
  "save wb = \<lparr>parts = map save_sheet (sheets wb), active_tab = active_index wb\<rparr>"

text \<open>
  A position is covered when it lies in a merged range off its anchor. Two ranges
  overlap when they share a position.
\<close>

definition covered :: "cell_range list \<Rightarrow> nat \<times> nat \<Rightarrow> bool" where
  "covered mcs p = list_ex (\<lambda>mc. non_anchor_inside mc p) mcs"

definition overlap :: "cell_range \<Rightarrow> cell_range \<Rightarrow> bool" where
  "overlap a b =
     (min_row a \<le> max_row b \<and> min_row b \<le> max_row a \<and>
      min_col a \<le> max_col b \<and> min_col b \<le> max_col a)"

fun separate :: "cell_range list \<Rightarrow> bool" where
  "separate [] = True"
| "separate (mc # mcs) = (list_all (\<lambda>r. \<not> overlap mc r) mcs \<and> separate mcs)"

subsection \<open>Properties of the library as documented\<close>

lemma openpyxl_keeps_ranges: "keeps_ranges openpyxl"
  unfolding keeps_ranges_def openpyxl_def
  by (auto simp: Worksheet_unmerge_cells_def Worksheet_setitem_def check_string_def
      split: if_splits sum.splits)

lemma range_cells_set:
  "set (range_cells mc) =
     {(row, col). min_row mc \<le> row \<and> row \<le> max_row mc \<and> min_col mc \<le> col \<and> col \<le> max_col mc}"
  by (auto simp: range_cells_def image_iff simp del: upt_Suc)

lemma product_distinct:
  "distinct xs \<Longrightarrow> distinct ys \<Longrightarrow> distinct (concat (map (\<lambda>x. map (\<lambda>y. (x, y)) ys) xs))"
  by (induction xs) (auto simp: distinct_map inj_on_def)

lemma range_cells_distinct: "distinct (range_cells mc)"
  unfolding range_cells_def by (rule product_distinct) simp_all

lemma range_cells_hd:
  "range_cells mc \<noteq> [] \<Longrightarrow> hd (range_cells mc) = (min_row mc, min_col mc)"
proof -
  assume n: "range_cells mc \<noteq> []"
  then have "set (range_cells mc) \<noteq> {}" by simp
  then have r: "min_row mc < Suc (max_row mc)" and c: "min_col mc < Suc (max_col mc)"
    unfolding range_cells_set by auto
  show ?thesis
    unfolding range_cells_def upt_conv_Cons [OF r] upt_conv_Cons [OF c] by simp
qed

lemma range_cells_tl:
  "set (tl (range_cells mc)) = {p. non_anchor_inside mc p}"
proof (cases "range_cells mc")
  case Nil
  then have "set (range_cells mc) = {}" by simp
  then show ?thesis
    unfolding range_cells_set using Nil by (auto simp: non_anchor_inside_def)
next
  case (Cons a l)
  with range_cells_hd [of mc] have a: "a = (min_row mc, min_col mc)" by simp
  from Cons range_cells_distinct [of mc] have "a \<notin> set l" by simp
  moreover from Cons have "set (range_cells mc) = insert a (set l)" by simp
  ultimately have "set l = set (range_cells mc) - {a}" by auto
  with Cons a show ?thesis
    unfolding range_cells_set by (auto simp: non_anchor_inside_def)
qed

lemma delete_cells_ok:
  "distinct ps \<Longrightarrow> \<forall>p \<in> set ps. cs p \<noteq> None \<Longrightarrow>
     delete_cells ps cs = Inr (\<lambda>p. if p \<in> set ps then None else cs p)"
proof (induction ps arbitrary: cs)
  case Nil
  then show ?case by simp
next
  case (Cons a ps)
  have "delete_cells ps (cs(a := None)) = Inr (\<lambda>p. if p \<in> set ps then None else (cs(a := None)) p)"
    by (rule Cons.IH) (use Cons.prems in auto)
  moreover have "(\<lambda>p. if p \<in> set ps then None else (cs(a := None)) p) =
      (\<lambda>p. if p \<in> set (a # ps) then None else cs p)"
    by (rule ext) simp
  ultimately show ?case using Cons.prems by simp
qed

text \<open>
  A sheet is bound when its placeholders stand exactly at the covered positions of its
  merged ranges, as they do after \<open>load_workbook\<close>.
\<close>

definition bound :: "worksheet \<Rightarrow> bool" where
  "bound ws = (\<forall>p. cells ws p = Some MergedCell \<longleftrightarrow> covered (merged_cells ws) p)"

lemma covered_snoc: "covered (mcs @ [mc]) p \<longleftrightarrow> covered mcs p \<or> non_anchor_inside mc p"
  by (auto simp: covered_def list_ex_iff)

lemma load_cells_merged:
  assumes "cs0 p \<noteq> Some MergedCell"
  shows "foldl (\<lambda>cs mc. bind_merged_cells mc cs) cs0 mcs p = Some MergedCell \<longleftrightarrow> covered mcs p"
proof (induction mcs rule: rev_induct)
  case Nil
  from assms show ?case by (simp add: covered_def)
next
  case (snoc mc mcs)
  have "bind_merged_cells mc cs p = Some MergedCell \<longleftrightarrow>
      non_anchor_inside mc p \<or> cs p = Some MergedCell" for cs
    by (auto simp: bind_merged_cells_def)
  with snoc show ?case by (auto simp: covered_snoc)
qed

lemma load_cells_value:
  "foldl (\<lambda>cs mc. bind_merged_cells mc cs) cs0 mcs p = Some (Cell (Some v)) \<longleftrightarrow>
     \<not> covered mcs p \<and> cs0 p = Some (Cell (Some v))"
proof (induction mcs rule: rev_induct)
  case Nil
  then show ?case by (simp add: covered_def)
next
  case (snoc mc mcs)
  have "bind_merged_cells mc cs p = Some (Cell (Some v)) \<longleftrightarrow>
      \<not> non_anchor_inside mc p \<and> cs p = Some (Cell (Some v))" for cs
    by (auto simp: bind_merged_cells_def)
  with snoc show ?case by (auto simp: covered_snoc)
qed

lemma load_sheet_bound: "bound (load_sheet part)"
proof -
  have "map_option (\<lambda>v. Cell (Some v)) (part_values part p) \<noteq> Some MergedCell" for p
    by (cases "part_values part p") simp_all
  from load_cells_merged [OF this] show ?thesis
    by (simp add: bound_def load_sheet_def)
qed

lemma save_load_value:
  "part_values (save_sheet (load_sheet part)) p = Some v \<longleftrightarrow>
     v \<noteq> [] \<and> \<not> covered (part_merges part) p \<and> part_values part p = Some v"
proof -
  have "part_values (save_sheet ws) p = Some v \<longleftrightarrow> v \<noteq> [] \<and> cells ws p = Some (Cell (Some v))"
    for ws
    by (auto simp: save_sheet_def split: option.splits sheet_cell.splits if_splits)
  then show ?thesis
    by (auto simp: load_sheet_def load_cells_value)
qed

lemma overlap_inside:
  "non_anchor_inside a p \<Longrightarrow> non_anchor_inside b p \<Longrightarrow> overlap a b"
  by (cases p) (auto simp: non_anchor_inside_def overlap_def)

lemma overlap_sym: "overlap a b = overlap b a"
  by (auto simp: overlap_def)

lemma separate_remove1:
  "separate l \<Longrightarrow> separate (remove1 mc l)"
proof (induction l)
  case Nil
  then show ?case by simp
next
  case (Cons a l)
  have "set (remove1 mc l) \<subseteq> set l" by (rule set_remove1_subset)
  with Cons show ?case by (auto simp: list_all_iff)
qed

lemma separate_others:
  "separate l \<Longrightarrow> mc \<in> set l \<Longrightarrow> r \<in> set (remove1 mc l) \<Longrightarrow> \<not> overlap mc r"
proof (induction l)
  case Nil
  then show ?case by simp
next
  case (Cons a l)
  show ?case
  proof (cases "a = mc")
    case True
    with Cons.prems show ?thesis by (simp add: list_all_iff)
  next
    case False
    with Cons.prems have mc: "mc \<in> set l" and r: "r = a \<or> r \<in> set (remove1 mc l)" by auto
    from r show ?thesis
    proof
      assume "r = a"
      with Cons.prems(1) mc have "\<not> overlap r mc" by (simp add: list_all_iff)
      then show ?thesis by (simp add: overlap_sym)
    next
      assume "r \<in> set (remove1 mc l)"
      with Cons mc show ?thesis by simp
    qed
  qed
qed

lemma unmerge_cells_bound:
  assumes b: "bound ws" and s: "separate (merged_cells ws)" and m: "mc \<in> set (merged_cells ws)"
  shows "\<exists>ws'. Worksheet_unmerge_cells ws mc = Inr ws' \<and> bound ws' \<and>
           merged_cells ws' = remove1 mc (merged_cells ws)"
proof -
  let ?ps = "tl (range_cells mc)"
  let ?cs = "\<lambda>p. if p \<in> set ?ps then None else cells ws p"
  let ?ws' = "ws\<lparr>merged_cells := remove1 mc (merged_cells ws), cells := ?cs\<rparr>"
  have d: "distinct ?ps" using range_cells_distinct [of mc] by (rule distinct_tl)
  have present: "\<forall>p \<in> set ?ps. cells ws p \<noteq> None"
  proof
    fix p assume "p \<in> set ?ps"
    then have "non_anchor_inside mc p" unfolding range_cells_tl by simp
    with m have "covered (merged_cells ws) p" by (auto simp: covered_def list_ex_iff)
    with b [unfolded bound_def, rule_format, of p] show "cells ws p \<noteq> None" by simp
  qed
  from delete_cells_ok [OF d present] m
  have u: "Worksheet_unmerge_cells ws mc = Inr ?ws'"
    by (simp add: Worksheet_unmerge_cells_def)
  have "bound ?ws'"
    unfolding bound_def
  proof
    fix p
    show "cells ?ws' p = Some MergedCell \<longleftrightarrow> covered (merged_cells ?ws') p"
    proof (cases "non_anchor_inside mc p")
      case True
      have "\<not> covered (remove1 mc (merged_cells ws)) p"
      proof
        assume "covered (remove1 mc (merged_cells ws)) p"
        then obtain r where r: "r \<in> set (remove1 mc (merged_cells ws))" "non_anchor_inside r p"
          by (auto simp: covered_def list_ex_iff)
        from separate_others [OF s m r(1)] overlap_inside [OF True r(2)] show False by simp
      qed
      with True show ?thesis by (simp add: range_cells_tl)
    next
      case False
      have "covered (remove1 mc (merged_cells ws)) p \<longleftrightarrow> covered (merged_cells ws) p"
      proof
        assume "covered (remove1 mc (merged_cells ws)) p"
        then show "covered (merged_cells ws) p"
          using set_remove1_subset [of mc "merged_cells ws"]
          by (auto simp: covered_def list_ex_iff)
      next
        assume "covered (merged_cells ws) p"
        then obtain r where r: "r \<in> set (merged_cells ws)" "non_anchor_inside r p"
          by (auto simp: covered_def list_ex_iff)
        with False have "r \<noteq> mc" by auto
        with r have "r \<in> set (remove1 mc (merged_cells ws))" by simp
        with r(2) show "covered (remove1 mc (merged_cells ws)) p"
          by (auto simp: covered_def list_ex_iff)
      qed
      with False b [unfolded bound_def, rule_format, of p] show ?thesis
        by (simp add: range_cells_tl)
    qed
  qed
  with u show ?thesis by (intro exI [of _ ?ws']) simp
qed

lemma unmerge_loop_total:
  "\<forall>r \<in> set refs. \<exists>p. coordinate_to_tuple openpyxl r = Inr p \<Longrightarrow>
   bound ws \<Longrightarrow> separate (merged_cells ws) \<Longrightarrow> merged_cells ws = kept @ rem \<Longrightarrow>
   \<forall>k \<in> set kept. hits_range openpyxl k refs = Inr False \<Longrightarrow>
   \<exists>ws'. unmerge_loop openpyxl rem refs ws = Inr ws' \<and> bound ws'"
proof (induction rem arbitrary: ws kept)
  case Nil
  then show ?case by simp
next
  case (Cons mc rem)
  from hits_range_all_parse [OF Cons.prems(1)] obtain hit where
    h: "hits_range openpyxl mc refs = Inr hit" by blast
  show ?case
  proof (cases hit)
    case True
    from Cons.prems(4) have "mc \<in> set (merged_cells ws)" by simp
    from unmerge_cells_bound [OF Cons.prems(2,3) this] obtain ws1 where
      u: "Worksheet_unmerge_cells ws mc = Inr ws1" and b1: "bound ws1" and
      m1: "merged_cells ws1 = remove1 mc (merged_cells ws)" by blast
    from Cons.prems(5) h True have "mc \<notin> set kept" by auto
    with m1 Cons.prems(4) have k: "merged_cells ws1 = kept @ rem" by (simp add: remove1_append)
    from Cons.prems(3) m1 have s1: "separate (merged_cells ws1)" by (simp add: separate_remove1)
    from Cons.IH [OF Cons.prems(1) b1 s1 k Cons.prems(5)] h True u show ?thesis
      by (simp add: openpyxl_def)
  next
    case False
    have m: "merged_cells ws = (kept @ [mc]) @ rem" using Cons.prems(4) by simp
    have "\<forall>k \<in> set (kept @ [mc]). hits_range openpyxl k refs = Inr False"
      using Cons.prems(5) h False by auto
    from Cons.IH [OF Cons.prems(1,2,3) m this] h False show ?thesis by simp
  qed
qed

text \<open>A text the library takes as a cell value: its first 32767 characters are legal.\<close>

definition legal_text :: "string \<Rightarrow> bool" where
  "legal_text v = (\<not> list_ex illegal_character (take 32767 v))"

lemma setitem_Inr:
  "Worksheet_setitem ws c v = Inr ws' \<longleftrightarrow>
     (\<exists>p. key_cell c = Inr p \<and> cells ws p \<noteq> Some MergedCell \<and> legal_text v \<and>
          ws' = ws\<lparr>cells := (cells ws)(p \<mapsto> Cell (Some (take 32767 v)))\<rparr>)"
  by (auto simp: Worksheet_setitem_def check_string_def legal_text_def split: sum.splits)

lemma fill_loop_cells:
  "fill_loop openpyxl l ws filled = Inr (ws', n) \<Longrightarrow>
     cells ws' p = cells ws p \<or>
     (\<exists>c v. (c, v) \<in> set l \<and> key_cell c = Inr p \<and> cells ws' p = Some (Cell (Some (take 32767 v))))"
proof (induction l arbitrary: ws filled)
  case Nil
  then show ?case by simp
next
  case (Cons a l)
  obtain c v where a: "a = (c, v)" by (cases a)
  from Cons.prems a obtain ws1 where
    s: "Worksheet_setitem ws c v = Inr ws1" and
    f: "fill_loop openpyxl l ws1 (filled + 1) = Inr (ws', n)"
    by (auto simp: openpyxl_def split: sum.splits)
  from s obtain p0 where p0: "key_cell c = Inr p0"
    "ws1 = ws\<lparr>cells := (cells ws)(p0 \<mapsto> Cell (Some (take 32767 v)))\<rparr>"
    unfolding setitem_Inr by blast
  from Cons.IH [OF f] have
    "cells ws' p = cells ws1 p \<or>
     (\<exists>c v. (c, v) \<in> set l \<and> key_cell c = Inr p \<and> cells ws' p = Some (Cell (Some (take 32767 v))))" .
  then show ?case
  proof
    assume k: "cells ws' p = cells ws1 p"
    show ?thesis
    proof (cases "p = p0")
      case True
      with k p0 a have "(c, v) \<in> set (a # l) \<and> key_cell c = Inr p \<and>
          cells ws' p = Some (Cell (Some (take 32767 v)))" by simp
      then show ?thesis by blast
    next
      case False
      with k p0 show ?thesis by simp
    qed
  next
    assume "\<exists>c v. (c, v) \<in> set l \<and> key_cell c = Inr p \<and>
        cells ws' p = Some (Cell (Some (take 32767 v)))"
    then show ?thesis by auto
  qed
qed

lemma fill_loop_written:
  "fill_loop openpyxl l ws filled = Inr (ws', n) \<Longrightarrow> (c, v) \<in> set l \<Longrightarrow>
     \<exists>p c' v'. key_cell c = Inr p \<and> (c', v') \<in> set l \<and> key_cell c' = Inr p \<and>
         cells ws' p = Some (Cell (Some (take 32767 v')))"
proof (induction l arbitrary: ws filled)
  case Nil
  then show ?case by simp
next
  case (Cons a l)
  obtain c0 v0 where a: "a = (c0, v0)" by (cases a)
  from Cons.prems(1) a obtain ws1 where
    s: "Worksheet_setitem ws c0 v0 = Inr ws1" and
    f: "fill_loop openpyxl l ws1 (filled + 1) = Inr (ws', n)"
    by (auto simp: openpyxl_def split: sum.splits)
  show ?case
  proof (cases "(c, v) \<in> set l")
    case True
    from Cons.IH [OF f True] obtain p c' v' where
      "key_cell c = Inr p" "(c', v') \<in> set l" "key_cell c' = Inr p"
      "cells ws' p = Some (Cell (Some (take 32767 v')))" by blast
    then have "key_cell c = Inr p \<and> (c', v') \<in> set (a # l) \<and> key_cell c' = Inr p \<and>
      cells ws' p = Some (Cell (Some (take 32767 v')))" by simp
    then show ?thesis by blast
  next
    case False
    with Cons.prems(2) a have e: "c0 = c" "v0 = v" by auto
    from s e obtain p where p: "key_cell c = Inr p"
      "cells ws1 p = Some (Cell (Some (take 32767 v)))"
      unfolding setitem_Inr by auto
    from fill_loop_cells [OF f, of p] have
      "cells ws' p = cells ws1 p \<or>
       (\<exists>c v. (c, v) \<in> set l \<and> key_cell c = Inr p \<and> cells ws' p = Some (Cell (Some (take 32767 v))))" .
    then show ?thesis
    proof
      assume "cells ws' p = cells ws1 p"
      with p e a have "key_cell c = Inr p \<and> (c, v) \<in> set (a # l) \<and> key_cell c = Inr p \<and>
        cells ws' p = Some (Cell (Some (take 32767 v)))" by simp
      then show ?thesis by blast
    next
      assume "\<exists>c v. (c, v) \<in> set l \<and> key_cell c = Inr p \<and>
          cells ws' p = Some (Cell (Some (take 32767 v)))"
      then obtain c' v' where "(c', v') \<in> set l" "key_cell c' = Inr p"
        "cells ws' p = Some (Cell (Some (take 32767 v')))" by blast
      with p(1) have "key_cell c = Inr p \<and> (c', v') \<in> set (a # l) \<and> key_cell c' = Inr p \<and>
        cells ws' p = Some (Cell (Some (take 32767 v')))" by simp
      then show ?thesis by blast
    qed
  qed
qed

lemma fill_loop_total:
  "\<forall>(c, v) \<in> set l. (\<exists>p. key_cell c = Inr p \<and> cells ws p \<noteq> Some MergedCell) \<and> legal_text v \<Longrightarrow>
   \<exists>ws'. fill_loop openpyxl l ws filled = Inr (ws', filled + length l)"
proof (induction l arbitrary: ws filled)
  case Nil
  then show ?case by simp
next
  case (Cons a l)
  obtain c v where a: "a = (c, v)" by (cases a)
  from Cons.prems a obtain p where p: "key_cell c = Inr p" "cells ws p \<noteq> Some MergedCell"
    and lv: "legal_text v" by auto
  let ?ws1 = "ws\<lparr>cells := (cells ws)(p \<mapsto> Cell (Some (take 32767 v)))\<rparr>"
  from p lv have s: "Worksheet_setitem ws c v = Inr ?ws1" unfolding setitem_Inr by blast
  have "\<forall>(c, v) \<in> set l. (\<exists>q. key_cell c = Inr q \<and> cells ?ws1 q \<noteq> Some MergedCell) \<and> legal_text v"
    using Cons.prems by fastforce
  from Cons.IH [OF this, of "filled + 1"] s a show ?case
    by (auto simp: openpyxl_def)
qed

text \<open>
  A plain coordinate: one to three letters and then decimal digits (at most 4300 of them)
  that give a row from 1 to 1048576. Both \<open>coordinate_to_tuple\<close> and \<open>ws[key]\<close> take it,
  for the same cell.
\<close>

definition plain_coordinate :: "string \<Rightarrow> bool" where
  "plain_coordinate c =
     (let ls = takeWhile is_ascii_letter c; ds = dropWhile is_ascii_letter c in
      ls \<noteq> [] \<and> length ls \<le> 3 \<and> ds \<noteq> [] \<and> list_all is_digit ds \<and> length ds \<le> 4300 \<and>
      0 < int_of_digits ds \<and> int_of_digits ds < 1048577)"

lemma digit_not_letter: "is_digit x \<Longrightarrow> \<not> is_ascii_letter x"
  by (auto simp: is_digit_def is_ascii_letter_def)

lemma digit_not_space: "is_digit x \<Longrightarrow> \<not> int_space x"
  by (auto simp: is_digit_def int_space_def)

lemma digit_not_dollar: "is_digit x \<Longrightarrow> x \<noteq> CHR ''$''"
  by (auto simp: is_digit_def)

lemma letter_not_dollar: "is_ascii_letter x \<Longrightarrow> x \<noteq> CHR ''$''"
  by (auto simp: is_ascii_letter_def)

lemma upper_letter: "is_ascii_letter x \<Longrightarrow> is_capital (upper_char x)"
  by (auto simp: is_ascii_letter_def is_capital_def upper_char_def)

lemma digit_groups_digits: "ds \<noteq> [] \<Longrightarrow> list_all is_digit ds \<Longrightarrow> digit_groups ds"
  by (induction ds rule: digit_groups.induct) auto

lemma int_text_digits:
  assumes "ds \<noteq> []" "list_all is_digit ds" "length ds \<le> 4300"
  shows "int_text ds = Some (int_of_digits ds)"
proof -
  from assms(1) obtain xs x where ds: "ds = xs @ [x]" by (cases ds rule: rev_cases) auto
  with assms(2) have "is_digit x" by simp
  then have "\<not> int_space x" by (rule digit_not_space)
  with ds have body: "rev (dropWhile int_space (rev ds)) = ds" by simp
  from assms(1,2) have h: "is_digit (hd ds)" by (cases ds) auto
  from assms(2) have f: "filter is_digit ds = ds" by (simp add: list_all_iff)
  from digit_groups_digits [OF assms(1,2)] h f assms(1,3) show ?thesis
    by (simp add: int_text_def body)
qed

lemma plain_coordinate_cell:
  assumes "plain_coordinate c"
  shows "\<exists>p. utils_coordinate_to_tuple c = Inr p \<and> key_cell c = Inr p"
proof -
  let ?ls = "takeWhile is_ascii_letter c"
  let ?ds = "dropWhile is_ascii_letter c"
  from assms have ls: "?ls \<noteq> []" "length ?ls \<le> 3" and
    ds: "?ds \<noteq> []" "list_all is_digit ?ds" "length ?ds \<le> 4300" and
    row: "0 < int_of_digits ?ds" "int_of_digits ?ds < 1048577"
    by (simp_all add: plain_coordinate_def Let_def)
  have c: "c = ?ls @ ?ds" by simp
  from ls(1) have ne: "c \<noteq> []" by auto
  from ls(1) have "is_ascii_letter (hd c)" by (cases c) (auto split: if_splits)
  then have "hd c \<noteq> CHR ''$''" by (rule letter_not_dollar)
  with ne have s1: "skip_dollar c = c" by (cases c) (auto simp: skip_dollar_def)
  have t3: "take 3 ?ls = ?ls" using ls(2) by simp
  from ds(1,2) have hd_digit: "is_digit (hd ?ds)" by (cases ?ds) auto
  then have "hd ?ds \<noteq> CHR ''$''" by (rule digit_not_dollar)
  with ds(1) have s2: "skip_dollar ?ds = ?ds" by (cases ?ds) (auto simp: skip_dollar_def)
  have dr: "drop (length ?ls) c = ?ds" by (simp add: dropWhile_eq_drop)
  have td: "takeWhile is_digit ?ds = ?ds" "dropWhile is_digit ?ds = []"
    using ds(2) by (simp_all add: list_all_iff)
  have k: "key_cell c = Inr (int_of_digits ?ds, column_index_from_string (upper ?ls))"
    unfolding key_cell_def s1 Let_def t3 dr s2 td using ls(1) ds(1,3) row by simp
  have letters: "\<forall>x \<in> set ?ls. \<not> is_digit x"
    using digit_not_letter by (auto dest: set_takeWhileD)
  have "takeWhile (\<lambda>x. \<not> is_digit x) (?ls @ ?ds) = ?ls @ takeWhile (\<lambda>x. \<not> is_digit x) ?ds"
    by (rule takeWhile_append2) (use letters in simp)
  moreover have "takeWhile (\<lambda>x. \<not> is_digit x) ?ds = []"
    using ds(1) hd_digit by (cases ?ds) auto
  ultimately have tw: "takeWhile (\<lambda>x. \<not> is_digit x) c = ?ls" using c by simp
  have ex: "list_ex is_digit c"
    using ds(1) hd_digit c
    by (metis Un_iff hd_in_set list_ex_iff set_append)
  have cap: "list_all is_capital (upper ?ls)"
    using upper_letter by (auto simp: list_all_iff upper_def dest: set_takeWhileD)
  have tk: "take (length ?ls) c = ?ls" by (rule takeWhile_eq_take [symmetric])
  have u: "utils_coordinate_to_tuple c = Inr (int_of_digits ?ds, column_index_from_string (upper ?ls))"
    unfolding utils_coordinate_to_tuple_def Let_def
    using ne ex int_text_digits [OF ds] ls cap
    by (simp add: tw tk dr upper_def)
  from k u show ?thesis by simp
qed

subsection \<open>Sample data\<close>

text \<open>
  An entry with a cell; a workbook of one sheet without cells, which is what the library
  loads from a file with one empty sheet; and a file of two sheets whose second sheet,
  the form, is the active one. In the file the sheet \<open>Notes\<close> holds a text under C3, a
  covered cell of its merged range B3:C3.
\<close>

definition entry :: "string \<Rightarrow> string \<Rightarrow> string option \<Rightarrow> string \<Rightarrow> field_mapping" where
  "entry cell label v conf =
     \<lparr>form_cell = Some cell, form_label = Some label, placeholder = None, mvalue = v,
      confidence = Some conf\<rparr>"

definition blank_file :: xlsx_file where
  "blank_file =
     \<lparr>parts = [\<lparr>part_title = ''Sheet1'', part_values = Map.empty, part_merges = []\<rparr>],
      active_tab = 0\<rparr>"

definition blank_workbook :: workbook where
  "blank_workbook =
     \<lparr>sheets = [\<lparr>title = ''Sheet1'', cells = Map.empty, merged_cells = []\<rparr>], active_index = 0\<rparr>"

definition notes_part :: sheet_part where
  "notes_part =
     \<lparr>part_title = ''Notes'',
      part_values = [(1, 1) \<mapsto> ''Notes'', (3, 2) \<mapsto> ''see form'', (3, 3) \<mapsto> ''draft''],
      part_merges = [\<lparr>min_row = 3, min_col = 2, max_row = 3, max_col = 3\<rparr>]\<rparr>"

definition form_part :: sheet_part where
  "form_part =
     \<lparr>part_title = ''Form'',
      part_values = [(1, 1) \<mapsto> ''Vendor form'', (3, 1) \<mapsto> ''Company Name''],
      part_merges = [\<lparr>min_row = 1, min_col = 1, max_row = 1, max_col = 2\<rparr>,
                     \<lparr>min_row = 3, min_col = 2, max_row = 3, max_col = 3\<rparr>]\<rparr>"

definition form_file :: xlsx_file where
  "form_file = \<lparr>parts = [notes_part, form_part], active_tab = 1\<rparr>"

text \<open>
  What a reader of the written file sees at the given positions: for every sheet its
  title and the texts there, and the count.
\<close>

definition saved_texts ::
  "(nat \<times> nat) list \<Rightarrow> error + workbook \<times> nat \<Rightarrow> error + (string \<times> string option list) list \<times> nat" where
  "saved_texts ps r =
     (case r of
        Inl e \<Rightarrow> Inl e
      | Inr (wb, n) \<Rightarrow>
          Inr (map (\<lambda>part. (part_title part, map (part_values part) ps)) (parts (save wb)), n))"

subsection \<open>Runs that return\<close>

lemma blank_loaded: "blank_workbook = load_workbook blank_file"
  by (simp add: blank_workbook_def blank_file_def load_workbook_def load_sheet_def)

lemma load_active:
  "active (load_workbook f) = Some ws \<Longrightarrow>
     active_tab f < length (parts f) \<and> ws = load_sheet (parts f ! active_tab f)"
  by (auto simp: active_def load_workbook_def split: if_splits)

lemma fill_xlsx_returns:
  assumes a: "active (load_workbook f) = Some ws"
      and s: "separate (merged_cells ws)"
      and c: "\<forall>c \<in> target_cells ms. plain_coordinate c"
      and v: "\<forall>m \<in> set ms. \<forall>v. mvalue m = Some v \<longrightarrow> legal_text v"
  shows "\<exists>wb' n. fill_xlsx openpyxl (load_workbook f) ms = Inr (wb', n)"
proof -
  let ?ctf = "cells_to_fill_loop ms []"
  let ?refs = "map fst ?ctf"
  have keys: "fst ` set ?ctf = target_cells ms" using cells_to_fill_keys [of ms "[]"] by simp
  have both: "\<exists>p. utils_coordinate_to_tuple r = Inr p \<and> key_cell r = Inr p" if "r \<in> set ?refs" for r
  proof -
    from that keys have "r \<in> target_cells ms" by simp
    with c have "plain_coordinate r" by blast
    then show ?thesis by (rule plain_coordinate_cell)
  qed
  have parse: "\<forall>r \<in> set ?refs. \<exists>p. coordinate_to_tuple openpyxl r = Inr p"
  proof
    fix r assume "r \<in> set ?refs"
    from both [OF this] obtain p where "utils_coordinate_to_tuple r = Inr p" by blast
    then have "coordinate_to_tuple openpyxl r = Inr p" by (simp add: openpyxl_def)
    then show "\<exists>p. coordinate_to_tuple openpyxl r = Inr p" ..
  qed
  from load_active [OF a] have b: "bound ws" by (simp add: load_sheet_bound)
  from unmerge_loop_total [OF parse b s, of "[]" "merged_cells ws"]
  obtain ws1 where u: "unmerge_loop openpyxl (merged_cells ws) ?refs ws = Inr ws1"
    and b1: "bound ws1" by auto
  from unmerge_loop_merged [OF openpyxl_keeps_ranges u, of "[]"]
  have m1: "merged_cells ws1 =
      filter (\<lambda>mc. hits_range openpyxl mc ?refs = Inr False) (merged_cells ws)" by simp
  have free: "\<exists>p. key_cell r = Inr p \<and> cells ws1 p \<noteq> Some MergedCell" if r: "r \<in> set ?refs" for r
  proof -
    from both [OF r] obtain p where p: "utils_coordinate_to_tuple r = Inr p" "key_cell r = Inr p"
      by blast
    have "\<not> covered (merged_cells ws1) p"
    proof
      assume "covered (merged_cells ws1) p"
      then obtain mc where mc: "mc \<in> set (merged_cells ws1)" "non_anchor_inside mc p"
        by (auto simp: covered_def list_ex_iff)
      from mc(1) m1 have "hits_range openpyxl mc ?refs = Inr False" by simp
      from hits_range_Inr [OF this]
      have n: "\<not> (\<exists>r \<in> set ?refs. \<exists>p. coordinate_to_tuple openpyxl r = Inr p \<and> non_anchor_inside mc p)"
        by simp
      from p(1) have "coordinate_to_tuple openpyxl r = Inr p" by (simp add: openpyxl_def)
      with r mc(2) n show False by blast
    qed
    with b1 [unfolded bound_def, rule_format, of p] p(2) show ?thesis by auto
  qed
  have "\<forall>(c, v) \<in> set ?ctf. (\<exists>p. key_cell c = Inr p \<and> cells ws1 p \<noteq> Some MergedCell) \<and> legal_text v"
  proof (clarify, rule conjI)
    fix c w assume cw: "(c, w) \<in> set ?ctf"
    then have "c \<in> set ?refs" by force
    then show "\<exists>p. key_cell c = Inr p \<and> cells ws1 p \<noteq> Some MergedCell" by (rule free)
    from cells_to_fill_entries [OF cw] v show "legal_text w" by auto
  qed
  from fill_loop_total [OF this, of 0]
  obtain ws2 where "fill_loop openpyxl ?ctf ws1 0 = Inr (ws2, length ?ctf)" by auto
  with a u show ?thesis by (simp add: fill_xlsx_def)
qed

lemma fill_xlsx_count:
  assumes "fill_xlsx L wb ms = Inr (wb', n)"
  shows "n = card (target_cells ms)"
proof -
  let ?ctf = "cells_to_fill_loop ms []"
  from assms obtain ws1 ws2 where "fill_loop L ?ctf ws1 0 = Inr (ws2, n)"
    by (rule fill_xlsx_InrD)
  from fill_loop_count [OF this] have "n = length ?ctf" by simp
  moreover have "distinct (map fst ?ctf)" by (rule cells_to_fill_distinct) simp
  from distinct_card [OF this] have "card (fst ` set ?ctf) = length ?ctf" by simp
  moreover have "fst ` set ?ctf = target_cells ms" using cells_to_fill_keys [of ms "[]"] by simp
  ultimately show ?thesis by simp
qed

lemmas coordinate_defs = utils_coordinate_to_tuple_def key_cell_def int_text_def skip_dollar_def
  is_capital_def is_digit_def is_ascii_letter_def int_space_def int_of_digits_def
  column_index_from_string_def upper_def upper_char_def plain_coordinate_def

lemma c_C3: "utils_coordinate_to_tuple ''C3'' = Inr (3, 3)"
  by (simp add: coordinate_defs)

lemma k_Z99: "key_cell ''Z99'' = Inr (99, 26)"
  by (simp add: coordinate_defs)

lemma k_B3: "key_cell ''B3'' = Inr (3, 2)"
  by (simp add: coordinate_defs)

lemma form_targets:
  "target_cells [entry ''C3'' ''Company Name'' (Some ''Acme Co'') ''high''] = {''C3''}"
  by (auto simp: target_cells_def entry_def usable_def)

lemma form_run:
  "\<exists>wb' n. fill_xlsx openpyxl (load_workbook form_file)
      [entry ''C3'' ''Company Name'' (Some ''Acme Co'') ''high''] = Inr (wb', n)"
proof (rule fill_xlsx_returns)
  show "active (load_workbook form_file) = Some (load_sheet form_part)"
    by (simp add: active_def load_workbook_def form_file_def)
  show "separate (merged_cells (load_sheet form_part))"
    by (simp add: load_sheet_def form_part_def overlap_def)
  have "plain_coordinate ''C3''" by (simp add: coordinate_defs)
  then show "\<forall>c \<in> target_cells [entry ''C3'' ''Company Name'' (Some ''Acme Co'') ''high'']. plain_coordinate c"
    by (simp add: form_targets)
  have "legal_text ''Acme Co''" by (simp add: legal_text_def illegal_character_def)
  then show "\<forall>m \<in> set [entry ''C3'' ''Company Name'' (Some ''Acme Co'') ''high'']. \<forall>v.
      mvalue m = Some v \<longrightarrow> legal_text v"
    by (simp add: entry_def)
qed

subsection \<open>Merged ranges\<close>

text \<open>
  C3: for every behaviour of the library calls under which \<open>unmerge_cells\<close> takes just
  the named range out of the merged ranges and an assignment leaves them alone: whenever
  \<open>fill_xlsx\<close> returns, the merged ranges of the active sheet afterwards are the merged
  ranges before, in the same order, without exactly those that contain a target
  coordinate (of an entry with a usable value) at a position other than the anchor; as
  sets, the ranges after are the ranges before minus the affected ones. The merged ranges
  of every other sheet are as they were.
\<close>

theorem fill_xlsx_unmerges_exactly:
  assumes "keeps_ranges L" and "fill_xlsx L wb ms = Inr (wb', n)"
  shows "(\<exists>ws ws'. active wb = Some ws \<and> active wb' = Some ws' \<and>
           merged_cells ws' = filter (\<lambda>mc. \<not> affected L ms mc) (merged_cells ws) \<and>
           set (merged_cells ws') = set (merged_cells ws) - {mc. affected L ms mc}) \<and>
         (\<forall>i < length (sheets wb). i \<noteq> active_index wb \<longrightarrow>
            merged_cells (sheets wb' ! i) = merged_cells (sheets wb ! i))"
proof -
  from assms obtain ws ws' where
    a: "active wb = Some ws" "active wb' = Some ws'" and
    m: "merged_cells ws' = filter (\<lambda>mc. \<not> affected L ms mc) (merged_cells ws)"
    by (rule fill_xlsx_merged_ranges)
  then have "\<exists>ws ws'. active wb = Some ws \<and> active wb' = Some ws' \<and>
           merged_cells ws' = filter (\<lambda>mc. \<not> affected L ms mc) (merged_cells ws) \<and>
           set (merged_cells ws') = set (merged_cells ws) - {mc. affected L ms mc}"
    by auto
  moreover from assms(2) obtain ws2 where
    "wb' = wb\<lparr>sheets := (sheets wb)[active_index wb := ws2]\<rparr>"
    by (rule fill_xlsx_InrD)
  then have "\<forall>i < length (sheets wb). i \<noteq> active_index wb \<longrightarrow>
            merged_cells (sheets wb' ! i) = merged_cells (sheets wb ! i)"
    by simp
  ultimately show ?thesis by blast
qed

text \<open>
  The library as documented behaves so. The form sheet has the merged ranges A1:B1 and
  B3:C3; the target C3 is a covered cell of the second, which is unmerged, and the first
  stays.
\<close>

theorem fill_xlsx_unmerges_exactly_witness:
  "\<exists>wb' n ws'. fill_xlsx openpyxl (load_workbook form_file)
        [entry ''C3'' ''Company Name'' (Some ''Acme Co'') ''high''] = Inr (wb', n) \<and>
      active wb' = Some ws' \<and>
      merged_cells ws' = [\<lparr>min_row = 1, min_col = 1, max_row = 1, max_col = 2\<rparr>]"
proof -
  let ?ms = "[entry ''C3'' ''Company Name'' (Some ''Acme Co'') ''high'']"
  from form_run obtain wb' n where
    r: "fill_xlsx openpyxl (load_workbook form_file) ?ms = Inr (wb', n)" by blast
  have a: "active (load_workbook form_file) = Some (load_sheet form_part)"
    by (simp add: active_def load_workbook_def form_file_def)
  from fill_xlsx_unmerges_exactly [OF openpyxl_keeps_ranges r] a obtain ws' where
    "active wb' = Some ws'"
    "merged_cells ws' = filter (\<lambda>mc. \<not> affected openpyxl ?ms mc) (merged_cells (load_sheet form_part))"
    by auto
  then have "active wb' = Some ws' \<and>
      merged_cells ws' = [\<lparr>min_row = 1, min_col = 1, max_row = 1, max_col = 2\<rparr>]"
    by (simp add: affected_def form_targets openpyxl_def c_C3 non_anchor_inside_def
        load_sheet_def form_part_def)
  with r show ?thesis by blast
qed

subsection \<open>The other sheets\<close>

text \<open>
  C10, as stated, fails. In the sample file the active sheet is the second one: the value
  for C3 goes there and not into the first sheet. And the first sheet, which is not the
  active one, is not the same in the written file: the text that the file held under
  C3, a covered cell of B3:C3, is gone, because the library does not read it.
\<close>

theorem fill_xlsx_first_sheet_counterexample:
  "saved_texts [(3, 2), (3, 3)]
     (fill_xlsx openpyxl (load_workbook form_file)
        [entry ''C3'' ''Company Name'' (Some ''Acme Co'') ''high'']) =
     Inr ([(''Notes'', [Some ''see form'', None]), (''Form'', [None, Some ''Acme Co''])], 1) \<and>
   map (\<lambda>part. (part_title part, map (part_values part) [(3, 2), (3, 3)])) (parts form_file) =
     [(''Notes'', [Some ''see form'', Some ''draft'']), (''Form'', [None, None])] \<and>
   active_tab form_file = 1"
  by (simp add: saved_texts_def fill_xlsx_def active_def load_workbook_def load_sheet_def form_file_def
      form_part_def notes_part_def entry_def openpyxl_def c_C3 non_anchor_inside_def
      Worksheet_unmerge_cells_def range_cells_def bind_merged_cells_def Worksheet_setitem_def
      check_string_def illegal_character_def save_def save_sheet_def
      key_cell_def skip_dollar_def is_digit_def is_ascii_letter_def int_of_digits_def
      column_index_from_string_def upper_def upper_char_def)

text \<open>
  C10, amended: whatever the library calls do, when \<open>fill_xlsx\<close> returns, the workbook has
  the same sheets in number and the same active index, and every sheet other than the
  active one, which is the sheet at the workbook's active index and need not be the
  first, is handed to \<open>save\<close> exactly as \<open>load_workbook\<close> returned it. In the written
  file such a sheet has the title and the merged ranges it had in the input file, and it
  holds a text at a position exactly when the input file holds that text there, the text
  is not empty, and the position is not a covered cell of a merged range of the sheet.
\<close>

theorem fill_xlsx_other_sheets:
  assumes "fill_xlsx L wb ms = Inr (wb', n)"
  shows "length (sheets wb') = length (sheets wb) \<and> active_index wb' = active_index wb \<and>
         (\<forall>i < length (sheets wb). i \<noteq> active_index wb \<longrightarrow> sheets wb' ! i = sheets wb ! i) \<and>
         (\<forall>f. wb = load_workbook f \<longrightarrow>
            length (parts (save wb')) = length (parts f) \<and>
            (\<forall>i < length (parts f). i \<noteq> active_tab f \<longrightarrow>
               part_title (parts (save wb') ! i) = part_title (parts f ! i) \<and>
               part_merges (parts (save wb') ! i) = part_merges (parts f ! i) \<and>
               (\<forall>p v. part_values (parts (save wb') ! i) p = Some v \<longleftrightarrow>
                  v \<noteq> [] \<and> \<not> covered (part_merges (parts f ! i)) p \<and>
                  part_values (parts f ! i) p = Some v)))"
proof -
  from assms obtain ws2 where w: "wb' = wb\<lparr>sheets := (sheets wb)[active_index wb := ws2]\<rparr>"
    by (rule fill_xlsx_InrD)
  have "length (parts (save wb')) = length (parts f) \<and>
        (\<forall>i < length (parts f). i \<noteq> active_tab f \<longrightarrow>
           part_title (parts (save wb') ! i) = part_title (parts f ! i) \<and>
           part_merges (parts (save wb') ! i) = part_merges (parts f ! i) \<and>
           (\<forall>p v. part_values (parts (save wb') ! i) p = Some v \<longleftrightarrow>
              v \<noteq> [] \<and> \<not> covered (part_merges (parts f ! i)) p \<and>
              part_values (parts f ! i) p = Some v))"
    if l: "wb = load_workbook f" for f
  proof (intro conjI allI impI)
    show "length (parts (save wb')) = length (parts f)"
      using w l by (simp add: save_def load_workbook_def)
  next
    fix i assume i: "i < length (parts f)" "i \<noteq> active_tab f"
    with w l have s: "parts (save wb') ! i = save_sheet (load_sheet (parts f ! i))"
      by (simp add: save_def load_workbook_def)
    show "part_title (parts (save wb') ! i) = part_title (parts f ! i)"
      unfolding s by (simp add: save_sheet_def load_sheet_def)
    show "part_merges (parts (save wb') ! i) = part_merges (parts f ! i)"
      unfolding s by (simp add: save_sheet_def load_sheet_def)
    fix p v
    show "part_values (parts (save wb') ! i) p = Some v \<longleftrightarrow>
        v \<noteq> [] \<and> \<not> covered (part_merges (parts f ! i)) p \<and> part_values (parts f ! i) p = Some v"
      unfolding s by (rule save_load_value)
  qed
  with w show ?thesis by simp
qed

text \<open>
  The sample file: the sheet \<open>Notes\<close> at index 0 is not the active one. It comes back
  with its title and its merged range, with its text in B3, and without the text under
  the covered cell C3.
\<close>

theorem fill_xlsx_other_sheets_witness:
  "\<exists>wb' n. fill_xlsx openpyxl (load_workbook form_file)
        [entry ''C3'' ''Company Name'' (Some ''Acme Co'') ''high''] = Inr (wb', n) \<and>
      length (sheets wb') = 2 \<and> active_index wb' = 1 \<and>
      sheets wb' ! 0 = load_sheet notes_part \<and>
      part_title (parts (save wb') ! 0) = ''Notes'' \<and>
      part_merges (parts (save wb') ! 0) = [\<lparr>min_row = 3, min_col = 2, max_row = 3, max_col = 3\<rparr>] \<and>
      part_values (parts (save wb') ! 0) (3, 2) = Some ''see form'' \<and>
      part_values (parts (save wb') ! 0) (3, 3) \<noteq> Some ''draft''"
proof -
  let ?ms = "[entry ''C3'' ''Company Name'' (Some ''Acme Co'') ''high'']"
  from form_run obtain wb' n where
    r: "fill_xlsx openpyxl (load_workbook form_file) ?ms = Inr (wb', n)" by blast
  note t = fill_xlsx_other_sheets [OF r]
  from t have a: "length (sheets wb') = 2 \<and> active_index wb' = 1 \<and>
      sheets wb' ! 0 = load_sheet notes_part"
    by (simp add: load_workbook_def form_file_def)
  from t have "\<forall>i < length (parts form_file). i \<noteq> active_tab form_file \<longrightarrow>
      part_title (parts (save wb') ! i) = part_title (parts form_file ! i) \<and>
      part_merges (parts (save wb') ! i) = part_merges (parts form_file ! i) \<and>
      (\<forall>p v. part_values (parts (save wb') ! i) p = Some v \<longleftrightarrow>
         v \<noteq> [] \<and> \<not> covered (part_merges (parts form_file ! i)) p \<and>
         part_values (parts form_file ! i) p = Some v)"
    by blast
  then have "part_title (parts (save wb') ! 0) = part_title notes_part \<and>
      part_merges (parts (save wb') ! 0) = part_merges notes_part \<and>
      (\<forall>p v. part_values (parts (save wb') ! 0) p = Some v \<longleftrightarrow>
         v \<noteq> [] \<and> \<not> covered (part_merges notes_part) p \<and> part_values notes_part p = Some v)"
    by (simp add: form_file_def)
  then have "part_title (parts (save wb') ! 0) = ''Notes'' \<and>
      part_merges (parts (save wb') ! 0) = [\<lparr>min_row = 3, min_col = 2, max_row = 3, max_col = 3\<rparr>] \<and>
      part_values (parts (save wb') ! 0) (3, 2) = Some ''see form'' \<and>
      part_values (parts (save wb') ! 0) (3, 3) \<noteq> Some ''draft''"
    by (simp add: notes_part_def covered_def non_anchor_inside_def)
  with r a show ?thesis by blast
qed

subsection \<open>Coordinates the sheet has no cell for\<close>

text \<open>
  C7, as stated, fails: on a sheet without any cell, the entry for Z99 is not dropped. The
  cell is created with the value and the entry is counted.
\<close>

theorem fill_xlsx_absent_cell_counterexample:
  "cells (sheets blank_workbook ! 0) (99, 26) = None \<and>
   fill_xlsx openpyxl blank_workbook [entry ''Z99'' ''Company Name'' (Some ''Acme Co'') ''high''] =
     Inr (\<lparr>sheets = [\<lparr>title = ''Sheet1'', cells = [(99, 26) \<mapsto> Cell (Some ''Acme Co'')],
                       merged_cells = []\<rparr>],
           active_index = 0\<rparr>, 1)"
  by (simp add: fill_xlsx_def active_def blank_workbook_def entry_def openpyxl_def
      Worksheet_setitem_def check_string_def illegal_character_def k_Z99)

text \<open>
  C7, amended. Whenever \<open>fill_xlsx\<close> returns, the count is the number of distinct target
  coordinates, and every target cell, whether the sheet had a cell there or not, holds
  the usable value of an entry mapped to that cell, cut to 32767 characters. And
  \<open>fill_xlsx\<close> does return, on a workbook that comes from \<open>load_workbook\<close> and has an active
  sheet of which no two merged ranges overlap, when every target is a plain coordinate
  and every value is a text the library takes.
\<close>

theorem fill_xlsx_writes_and_counts:
  "(fill_xlsx openpyxl wb ms = Inr (wb', n) \<longrightarrow>
      n = card (target_cells ms) \<and>
      (\<exists>ws'. active wb' = Some ws' \<and>
         (\<forall>c \<in> target_cells ms. \<exists>m \<in> set ms. \<exists>c' v p.
             form_cell m = Some c' \<and> mvalue m = Some v \<and> usable (mvalue m) \<and>
             key_cell c' = Inr p \<and> key_cell c = Inr p \<and>
             cells ws' p = Some (Cell (Some (take 32767 v)))))) \<and>
   (active (load_workbook f) = Some ws \<and> separate (merged_cells ws) \<and>
    (\<forall>c \<in> target_cells ms. plain_coordinate c) \<and>
    (\<forall>m \<in> set ms. \<forall>v. mvalue m = Some v \<longrightarrow> legal_text v) \<longrightarrow>
      (\<exists>wb' n. fill_xlsx openpyxl (load_workbook f) ms = Inr (wb', n)))"
proof (intro conjI impI)
  assume run: "fill_xlsx openpyxl wb ms = Inr (wb', n)"
  show "n = card (target_cells ms)" using run by (rule fill_xlsx_count)
  let ?ctf = "cells_to_fill_loop ms []"
  from run obtain ws ws1 ws2 where
    a: "active wb = Some ws" and
    f: "fill_loop openpyxl ?ctf ws1 0 = Inr (ws2, n)" and
    w: "wb' = wb\<lparr>sheets := (sheets wb)[active_index wb := ws2]\<rparr>"
    by (rule fill_xlsx_InrD)
  have keys: "fst ` set ?ctf = target_cells ms" using cells_to_fill_keys [of ms "[]"] by simp
  have "\<exists>m \<in> set ms. \<exists>c' v p.
             form_cell m = Some c' \<and> mvalue m = Some v \<and> usable (mvalue m) \<and>
             key_cell c' = Inr p \<and> key_cell c = Inr p \<and>
             cells ws2 p = Some (Cell (Some (take 32767 v)))" if c: "c \<in> target_cells ms" for c
  proof -
    from c keys obtain v0 where cv: "(c, v0) \<in> set ?ctf" by force
    from fill_loop_written [OF f cv] obtain p c' v' where
      p: "key_cell c = Inr p" "(c', v') \<in> set ?ctf" "key_cell c' = Inr p"
         "cells ws2 p = Some (Cell (Some (take 32767 v')))" by blast
    from cells_to_fill_entries [OF p(2)] obtain m where
      m: "m \<in> set ms" "form_cell m = Some c'" "mvalue m = Some v'" "usable (mvalue m)" by auto
    show ?thesis
      by (rule bexI [OF _ m(1)], rule exI [of _ c'], rule exI [of _ v'], rule exI [of _ p])
         (use m p in simp)
  qed
  moreover from a w have "active wb' = Some ws2" by (simp add: active_update)
  ultimately show "\<exists>ws'. active wb' = Some ws' \<and>
         (\<forall>c \<in> target_cells ms. \<exists>m \<in> set ms. \<exists>c' v p.
             form_cell m = Some c' \<and> mvalue m = Some v \<and> usable (mvalue m) \<and>
             key_cell c' = Inr p \<and> key_cell c = Inr p \<and>
             cells ws' p = Some (Cell (Some (take 32767 v))))"
    by blast
next
  assume "active (load_workbook f) = Some ws \<and> separate (merged_cells ws) \<and>
    (\<forall>c \<in> target_cells ms. plain_coordinate c) \<and>
    (\<forall>m \<in> set ms. \<forall>v. mvalue m = Some v \<longrightarrow> legal_text v)"
  then show "\<exists>wb' n. fill_xlsx openpyxl (load_workbook f) ms = Inr (wb', n)"
    using fill_xlsx_returns [of f ws ms] by blast
qed

text \<open>
  The blank workbook is what the library loads from the blank file; Z99 is a plain
  coordinate, and the sheet has no cell there.
\<close>

theorem fill_xlsx_writes_and_counts_witness:
  "\<exists>wb' ws'. fill_xlsx openpyxl (load_workbook blank_file)
        [entry ''Z99'' ''Company Name'' (Some ''Acme Co'') ''high''] = Inr (wb', 1) \<and>
      active wb' = Some ws' \<and> cells ws' (99, 26) = Some (Cell (Some ''Acme Co'')) \<and>
      cells (sheets (load_workbook blank_file) ! 0) (99, 26) = None"
proof -
  let ?ms = "[entry ''Z99'' ''Company Name'' (Some ''Acme Co'') ''high'']"
  let ?ws = "sheets (load_workbook blank_file) ! 0"
  have t: "target_cells ?ms = {''Z99''}"
    by (auto simp: target_cells_def entry_def usable_def)
  note k = k_Z99
  have h1: "active (load_workbook blank_file) = Some ?ws \<and> separate (merged_cells ?ws)"
    by (simp add: active_def load_workbook_def load_sheet_def blank_file_def)
  have "plain_coordinate ''Z99''" by (simp add: coordinate_defs)
  then have h2: "\<forall>c \<in> target_cells ?ms. plain_coordinate c" by (simp add: t)
  have "legal_text ''Acme Co''" by (simp add: legal_text_def illegal_character_def)
  then have h3: "\<forall>m \<in> set ?ms. \<forall>v. mvalue m = Some v \<longrightarrow> legal_text v"
    by (simp add: entry_def)
  note h = conjI [OF h1 conjI [OF h2 h3]]
  note th = fill_xlsx_writes_and_counts [of _ ?ms _ _ blank_file ?ws]
  from th h [unfolded conj_assoc] obtain wb' n where r: "fill_xlsx openpyxl (load_workbook blank_file) ?ms = Inr (wb', n)"
    by blast
  from fill_xlsx_writes_and_counts [of "load_workbook blank_file" ?ms wb' n blank_file ?ws] r
  obtain ws' where n: "n = card (target_cells ?ms)" and a: "active wb' = Some ws'" and
    w: "\<forall>c \<in> target_cells ?ms. \<exists>m \<in> set ?ms. \<exists>c' v p.
             form_cell m = Some c' \<and> mvalue m = Some v \<and> usable (mvalue m) \<and>
             key_cell c' = Inr p \<and> key_cell c = Inr p \<and>
             cells ws' p = Some (Cell (Some (take 32767 v)))"
    by blast
  from n have n1: "n = 1" by (simp add: t)
  from w have "cells ws' (99, 26) = Some (Cell (Some ''Acme Co''))"
    unfolding t by (auto simp: k entry_def)
  moreover have "cells ?ws (99, 26) = None"
    by (simp add: load_workbook_def load_sheet_def blank_file_def)
  ultimately show ?thesis using r a n1 by blast
qed

section \<open>The word-processor writer \<open>fill_docx\<close>\<close>

subsection \<open>The document, as the word-processing library presents it\<close>

text \<open>
  A run carries text and, when set, a font size in points. A paragraph is its runs and a
  table cell is its paragraphs. The cells of a table live in a store, by the identity of
  the underlying cell element; a row lists the identities that \<open>row.cells\<close> returns, where
  a merged cell shows up once per grid column it spans. Body paragraphs are apart from
  the paragraphs of table cells.
\<close>

record run =
  run_text :: string
  font_size :: "nat option"

type_synonym para = "run list"

type_synonym cell = "para list"

record table =
  tcs :: "nat \<Rightarrow> cell"
  rows :: "nat list list"

record document =
  tables :: "table list"
  paragraphs :: "para list"

text \<open>
  \<open>paragraph.text\<close> is the text of the runs in order; \<open>cell.text\<close> joins the texts of the
  cell's paragraphs with a line break.
\<close>

fun join :: "string \<Rightarrow> string list \<Rightarrow> string" where
  "join sep [] = []"
| "join sep [x] = x"
| "join sep (x # y # ys) = x @ sep @ join sep (y # ys)"

definition paragraph_text :: "para \<Rightarrow> string" where
  "paragraph_text p = concat (map run_text p)"

definition cell_text :: "cell \<Rightarrow> string" where
  "cell_text c = join [CHR 0x0A] (map paragraph_text c)"

subsection \<open>Labels\<close>

text \<open>
  \<open>re.sub(r'\s*\(.*?\)\s*', '', s)\<close>: scanning from the left, every stretch of optional
  whitespace, an opening bracket, the shortest run of characters other than a line break
  up to a closing bracket, and optional whitespace is removed.
\<close>

fun close_paren :: "string \<Rightarrow> string option" where
  "close_paren [] = None"
| "close_paren (c # cs) =
     (if c = CHR '')'' then Some cs
      else if c = CHR 0x0A then None
      else close_paren cs)"

definition match_parens :: "string \<Rightarrow> string option" where
  "match_parens s =
     (case dropWhile isspace s of
        [] \<Rightarrow> None
      | c # rest \<Rightarrow>
          if c = CHR ''(''
          then (case close_paren rest of None \<Rightarrow> None | Some r \<Rightarrow> Some (dropWhile isspace r))
          else None)"

lemma close_paren_length: "close_paren s = Some r \<Longrightarrow> length r < length s"
  by (induction s arbitrary: r) (auto split: if_splits)

lemma match_parens_length: "match_parens s = Some r \<Longrightarrow> length r < length s"
proof -
  assume a: "match_parens s = Some r"
  then obtain rest r0 where d: "dropWhile isspace s = CHR ''('' # rest"
    and c: "close_paren rest = Some r0" and r: "r = dropWhile isspace r0"
    by (auto simp: match_parens_def split: list.splits if_splits option.splits)
  have "length r \<le> length r0" unfolding r by (rule length_dropWhile_le)
  also have "\<dots> < length rest" by (rule close_paren_length [OF c])
  also have "\<dots> < length (dropWhile isspace s)" unfolding d by simp
  also have "\<dots> \<le> length s" by (rule length_dropWhile_le)
  finally show ?thesis .
qed

function remove_parens :: "string \<Rightarrow> string" where
  "remove_parens [] = []"
| "remove_parens (c # cs) =
     (case match_parens (c # cs) of
        Some rest \<Rightarrow> remove_parens rest
      | None \<Rightarrow> c # remove_parens cs)"
  by pat_completeness auto
termination
  by (relation "measure length") (auto dest: match_parens_length)

text \<open>
  The dict \<open>label_map\<close> of \<open>fill_docx\<close>: the label, stripped, lower-cased and without
  trailing colons, and also the label without bracketed notes when that differs.
\<close>

fun docx_label_map_loop ::
  "field_mapping list \<Rightarrow> (string \<times> string) list \<Rightarrow> (string \<times> string) list" where
  "docx_label_map_loop [] label_map = label_map"
| "docx_label_map_loop (m # ms) label_map =
     (let label = rstrip_colon (lower (strip (case form_label m of None \<Rightarrow> [] | Some l \<Rightarrow> l)))
      in case mvalue m of
           None \<Rightarrow> docx_label_map_loop ms label_map
         | Some v \<Rightarrow>
             if label \<noteq> [] \<and> v \<noteq> [] \<and> v \<noteq> ''null''
             then (let label_map1 = dict_set label v label_map;
                       clean = strip (remove_parens label)
                   in docx_label_map_loop ms
                        (if clean \<noteq> [] \<and> clean \<noteq> label then dict_set clean v label_map1
                         else label_map1))
             else docx_label_map_loop ms label_map)"

text \<open>
  The three ways a cell text finds its value: as a key, as a key once bracketed notes are
  removed, and for the first entry whose label occurs in the text or the text in the label.
\<close>

fun fuzzy_match :: "(string \<times> string) list \<Rightarrow> string \<Rightarrow> string option" where
  "fuzzy_match [] ct = None"
| "fuzzy_match ((lbl, v) # rest) ct =
     (if contains lbl ct \<or> contains ct lbl then Some v else fuzzy_match rest ct)"

definition match_label :: "(string \<times> string) list \<Rightarrow> string \<Rightarrow> string option" where
  "match_label label_map ct =
     (let ct_clean = rstrip_colon (strip (remove_parens ct)) in
      case map_of label_map ct of
        Some v \<Rightarrow> Some v
      | None \<Rightarrow>
          (if ct_clean \<noteq> []
           then (case map_of label_map ct_clean of
                   Some v \<Rightarrow> Some v
                 | None \<Rightarrow> fuzzy_match label_map ct)
           else fuzzy_match label_map ct))"

subsection \<open>Strategy 1: table cells\<close>

text \<open>The cells of a row without the repeats of a merged cell, in order of first occurrence.\<close>

fun unique_cells_loop :: "nat list \<Rightarrow> nat list \<Rightarrow> nat list" where
  "unique_cells_loop [] seen_tcs = []"
| "unique_cells_loop (tc # cs) seen_tcs =
     (if tc \<in> set seen_tcs then unique_cells_loop cs seen_tcs
      else tc # unique_cells_loop cs (seen_tcs @ [tc]))"

text \<open>
  Writing into the answer cell: every run of every paragraph loses its text, then the
  first run of the first paragraph takes the value, or a new run of size 9 when that
  paragraph has no run. A cell without a paragraph makes \<open>paragraphs[0]\<close> raise.
\<close>

definition clear_runs :: "cell \<Rightarrow> cell" where
  "clear_runs c = map (map (\<lambda>r. r\<lparr>run_text := []\<rparr>)) c"

definition write_answer :: "string \<Rightarrow> cell \<Rightarrow> error + cell" where
  "write_answer matched c =
     (case clear_runs c of
        [] \<Rightarrow> Inl IndexError
      | first_para # ps \<Rightarrow>
          (case first_para of
             [] \<Rightarrow> Inr ([\<lparr>run_text = matched, font_size = Some 9\<rparr>] # ps)
           | r # rs \<Rightarrow> Inr ((r\<lparr>run_text := matched\<rparr> # rs) # ps)))"

text \<open>
  One turn of the loop over the unique cells of a row, at cell \<open>c\<close> with the cells \<open>rest\<close>
  after it: the new store, and 1 when a value was written. Cell texts are read from the
  store as it is at that turn.
\<close>

definition cell_step ::
  "(string \<times> string) list \<Rightarrow> nat \<Rightarrow> nat list \<Rightarrow> (nat \<Rightarrow> cell) \<Rightarrow> error + (nat \<Rightarrow> cell) \<times> nat" where
  "cell_step label_map c rest store =
     (let ct = rstrip_colon (lower (strip (cell_text (store c)))) in
      if ct = [] then Inr (store, 0)
      else
        (case match_label label_map ct of
           None \<Rightarrow> Inr (store, 0)
         | Some matched \<Rightarrow>
             (case rest of
                [] \<Rightarrow> Inr (store, 0)
              | answer # others \<Rightarrow>
                  if matched = [] then Inr (store, 0)
                  else
                    (let existing = strip (cell_text (store answer)) in
                     if existing \<noteq> [] \<and> CHR '':'' \<in> set existing then Inr (store, 0)
                     else
                       (case write_answer matched (store answer) of
                          Inl e \<Rightarrow> Inl e
                        | Inr written \<Rightarrow> Inr (store(answer := written), 1))))))"

fun cells_loop ::
  "(string \<times> string) list \<Rightarrow> nat list \<Rightarrow> (nat \<Rightarrow> cell) \<Rightarrow> nat \<Rightarrow> error + (nat \<Rightarrow> cell) \<times> nat" where
  "cells_loop label_map [] store filled = Inr (store, filled)"
| "cells_loop label_map (c # rest) store filled =
     (case cell_step label_map c rest store of
        Inl e \<Rightarrow> Inl e
      | Inr (store', k) \<Rightarrow> cells_loop label_map rest store' (filled + k))"

fun rows_loop ::
  "(string \<times> string) list \<Rightarrow> nat list list \<Rightarrow> (nat \<Rightarrow> cell) \<Rightarrow> nat \<Rightarrow> error + (nat \<Rightarrow> cell) \<times> nat" where
  "rows_loop label_map [] store filled = Inr (store, filled)"
| "rows_loop label_map (row # later) store filled =
     (case cells_loop label_map (unique_cells_loop row []) store filled of
        Inl e \<Rightarrow> Inl e
      | Inr (store', filled') \<Rightarrow> rows_loop label_map later store' filled')"

fun tables_loop ::
  "(string \<times> string) list \<Rightarrow> table list \<Rightarrow> nat \<Rightarrow> error + table list \<times> nat" where
  "tables_loop label_map [] filled = Inr ([], filled)"
| "tables_loop label_map (t # ts) filled =
     (case rows_loop label_map (rows t) (tcs t) filled of
        Inl e \<Rightarrow> Inl e
      | Inr (store', filled') \<Rightarrow>
          (case tables_loop label_map ts filled' of
             Inl e \<Rightarrow> Inl e
           | Inr (ts', filled'') \<Rightarrow> Inr (t\<lparr>tcs := store'\<rparr> # ts', filled'')))"

subsection \<open>Strategy 2: labelled blanks in paragraphs\<close>

text \<open>
  \<open>pattern.search(paragraph.text)\<close> for the pattern \<open>re.escape(label) + r'\s*:\s*[_\s]*$'\<close>
  with \<open>re.IGNORECASE\<close>: somewhere in the text stands the label (letters compared without
  case), then whitespace, a colon, and from there to the end nothing but whitespace and
  underscores.
\<close>

definition blank_char :: "char \<Rightarrow> bool" where
  "blank_char c = (c = CHR ''_'' \<or> isspace c)"

fun starts_with_ci :: "string \<Rightarrow> string \<Rightarrow> string option" where
  "starts_with_ci [] s = Some s"
| "starts_with_ci (p # ps) [] = None"
| "starts_with_ci (p # ps) (c # cs) =
     (if lower_char p = lower_char c then starts_with_ci ps cs else None)"

definition inline_match_here :: "string \<Rightarrow> string \<Rightarrow> bool" where
  "inline_match_here label s =
     (case starts_with_ci label s of
        None \<Rightarrow> False
      | Some after_label \<Rightarrow>
          (case dropWhile isspace after_label of
             [] \<Rightarrow> False
           | c # tail \<Rightarrow> c = CHR '':'' \<and> list_all blank_char tail))"

fun inline_search :: "string \<Rightarrow> string \<Rightarrow> bool" where
  "inline_search label [] = inline_match_here label []"
| "inline_search label (c # cs) = (inline_match_here label (c # cs) \<or> inline_search label cs)"

text \<open>
  The replacement text \<open>f'\\1{value}'\<close> is a template of the regular-expression library:
  a backslash starts a group reference, an octal character code or an escape, and the
  value follows the \<open>\1\<close> without a separator. The template is parsed as the library parses
  it, for a pattern with \<open>groups\<close> groups and no named group; \<open>ReError\<close> stands for every
  error the library raises on a template.
\<close>

datatype template_item = Literal char | Group nat

definition is_octal :: "char \<Rightarrow> bool" where
  "is_octal c = (c \<in> set ''01234567'')"

definition digit_value :: "char \<Rightarrow> nat" where
  "digit_value c = index_of c ''0123456789''"

definition escapes :: "(char \<times> char) list" where
  "escapes = [(CHR ''a'', CHR 0x07), (CHR ''b'', CHR 0x08), (CHR ''f'', CHR 0x0C),
              (CHR ''n'', CHR 0x0A), (CHR ''r'', CHR 0x0D), (CHR ''t'', CHR 0x09),
              (CHR ''v'', CHR 0x0B), (CHR 0x5C, CHR 0x5C)]"

definition add_item :: "template_item \<Rightarrow> error + template_item list \<Rightarrow> error + template_item list" where
  "add_item i r = (case r of Inl e \<Rightarrow> Inl e | Inr is \<Rightarrow> Inr (i # is))"

definition add_group :: "nat \<Rightarrow> nat \<Rightarrow> error + template_item list \<Rightarrow> error + template_item list" where
  "add_group groups index r = (if index > groups then Inl ReError else add_item (Group index) r)"

function parse_template :: "nat \<Rightarrow> string \<Rightarrow> error + template_item list" where
  "parse_template groups [] = Inr []"
| "parse_template groups (c # cs) =
     (if c \<noteq> CHR 0x5C then add_item (Literal c) (parse_template groups cs)
      else
        (case cs of
           [] \<Rightarrow> Inl ReError
         | d # ds \<Rightarrow>
             if d = CHR ''g'' then
               (case ds of
                  [] \<Rightarrow> Inl ReError
                | lt # more_chars \<Rightarrow>
                    let name = takeWhile (\<lambda>x. x \<noteq> CHR ''>'') more_chars;
                        closing = dropWhile (\<lambda>x. x \<noteq> CHR ''>'') more_chars
                    in if lt \<noteq> CHR ''<'' \<or> closing = [] \<or> name = [] \<or> \<not> list_all is_digit name
                       then Inl ReError
                       else add_group groups (int_of_digits name) (parse_template groups (tl closing)))
             else if d = CHR ''0'' then
               (case ds of
                  o1 # o2 # after2 \<Rightarrow>
                    if is_octal o1 \<and> is_octal o2
                    then add_item (Literal (char_of (8 * digit_value o1 + digit_value o2)))
                           (parse_template groups after2)
                    else if is_octal o1
                    then add_item (Literal (char_of (digit_value o1))) (parse_template groups (o2 # after2))
                    else add_item (Literal (CHR 0x00)) (parse_template groups ds)
                | [o1] \<Rightarrow>
                    if is_octal o1 then Inr [Literal (char_of (digit_value o1))]
                    else add_item (Literal (CHR 0x00)) (parse_template groups ds)
                | [] \<Rightarrow> Inr [Literal (CHR 0x00)])
             else if is_digit d then
               (case ds of
                  d2 # after1 \<Rightarrow>
                    if is_digit d2 then
                      (case after1 of
                         d3 # after3 \<Rightarrow>
                           if is_octal d \<and> is_octal d2 \<and> is_octal d3
                           then (if 64 * digit_value d + 8 * digit_value d2 + digit_value d3 > 255
                                 then Inl ReError
                                 else add_item
                                        (Literal (char_of (64 * digit_value d + 8 * digit_value d2 + digit_value d3)))
                                        (parse_template groups after3))
                           else add_group groups (10 * digit_value d + digit_value d2)
                                  (parse_template groups after1)
                       | [] \<Rightarrow> add_group groups (10 * digit_value d + digit_value d2) (Inr []))
                    else add_group groups (digit_value d) (parse_template groups ds)
                | [] \<Rightarrow> add_group groups (digit_value d) (Inr []))
             else
               (case map_of escapes d of
                  Some ch \<Rightarrow> add_item (Literal ch) (parse_template groups ds)
                | None \<Rightarrow>
                    if is_ascii_letter d then Inl ReError
                    else add_item (Literal (CHR 0x5C)) (add_item (Literal d) (parse_template groups ds)))))"
  by pat_completeness auto
termination
  by (relation "measure (\<lambda>(g, s). length s)")
     (auto simp: less_Suc_eq_le intro!: le_SucI order_trans [OF diff_le_self] length_dropWhile_le)

definition expand_template :: "template_item list \<Rightarrow> string \<Rightarrow> string \<Rightarrow> string" where
  "expand_template items whole group1 =
     concat (map (\<lambda>i. case i of Literal ch \<Rightarrow> [ch] | Group n \<Rightarrow> if n = 0 then whole else group1) items)"

text \<open>
  \<open>re.sub(r'(:\s*)[_\s]*$', template, s)\<close>: the match starts at the first colon after which
  only whitespace and underscores follow; group 1 is the colon with the whitespace right
  after it; the match reaches the end of the text.
\<close>

fun sub_loop :: "template_item list \<Rightarrow> string \<Rightarrow> string" where
  "sub_loop items [] = []"
| "sub_loop items (c # cs) =
     (if c = CHR '':'' \<and> list_all blank_char cs
      then expand_template items (c # cs) (c # takeWhile isspace cs)
      else c # sub_loop items cs)"

definition inline_sub :: "string \<Rightarrow> string \<Rightarrow> error + string" where
  "inline_sub v s =
     (case parse_template 1 (CHR 0x5C # CHR ''1'' # v) of
        Inl e \<Rightarrow> Inl e
      | Inr items \<Rightarrow> Inr (sub_loop items s))"

text \<open>
  The new text goes into the first run and the other runs are emptied; a paragraph
  without runs gets one.
\<close>

definition set_paragraph_text :: "string \<Rightarrow> para \<Rightarrow> para" where
  "set_paragraph_text new_text p =
     (case map (\<lambda>r. r\<lparr>run_text := []\<rparr>) p of
        [] \<Rightarrow> [\<lparr>run_text = new_text, font_size = None\<rparr>]
      | r # rs \<Rightarrow> r\<lparr>run_text := new_text\<rparr> # rs)"

fun labels_loop :: "(string \<times> string) list \<Rightarrow> para \<Rightarrow> nat \<Rightarrow> error + para \<times> nat" where
  "labels_loop [] p filled = Inr (p, filled)"
| "labels_loop ((label, v) # rest) p filled =
     (if inline_search label (paragraph_text p)
      then (case inline_sub v (paragraph_text p) of
              Inl e \<Rightarrow> Inl e
            | Inr new_text \<Rightarrow> labels_loop rest (set_paragraph_text new_text p) (filled + 1))
      else labels_loop rest p filled)"

fun paragraphs_loop ::
  "(string \<times> string) list \<Rightarrow> para list \<Rightarrow> nat \<Rightarrow> error + para list \<times> nat" where
  "paragraphs_loop label_map [] filled = Inr ([], filled)"
| "paragraphs_loop label_map (p # ps) filled =
     (case labels_loop label_map p filled of
        Inl e \<Rightarrow> Inl e
      | Inr (p', filled') \<Rightarrow>
          (case paragraphs_loop label_map ps filled' of
             Inl e \<Rightarrow> Inl e
           | Inr (ps', filled'') \<Rightarrow> Inr (p' # ps', filled'')))"

subsection \<open>The writer\<close>

text \<open>
  \<open>fill_docx\<close> on the document that \<open>docx.Document(input_path)\<close> returned; the result is
  the document that \<open>doc.save(output_path)\<close> writes, and the count.
\<close>

definition fill_docx :: "document \<Rightarrow> field_mapping list \<Rightarrow> error + document \<times> nat" where
  "fill_docx doc mappings =
     (let label_map = docx_label_map_loop mappings [] in
      case tables_loop label_map (tables doc) 0 of
        Inl e \<Rightarrow> Inl e
      | Inr (ts, filled) \<Rightarrow>
          (case paragraphs_loop label_map (paragraphs doc) filled of
             Inl e \<Rightarrow> Inl e
           | Inr (ps, filled') \<Rightarrow> Inr (\<lparr>tables = ts, paragraphs = ps\<rparr>, filled')))"

text \<open>
  Sample data, and what a reader of the written document sees: the cell contents of every
  table row, the body paragraphs and the count.
\<close>

definition plain_run :: "string \<Rightarrow> run" where
  "plain_run s = \<lparr>run_text = s, font_size = None\<rparr>"

definition label_entry :: "string \<Rightarrow> string option \<Rightarrow> field_mapping" where
  "label_entry label v =
     \<lparr>form_cell = None, form_label = Some label, placeholder = None, mvalue = v, confidence = Some ''high''\<rparr>"

definition text_cell :: "string \<Rightarrow> cell" where
  "text_cell s = [[plain_run s]]"

definition empty_cell :: cell where
  "empty_cell = [[]]"

definition one_row_table :: "cell \<Rightarrow> cell \<Rightarrow> table" where
  "one_row_table a b = \<lparr>tcs = (\<lambda>i. empty_cell)(0 := a, 1 := b), rows = [[0, 1]]\<rparr>"

definition table_cells :: "table \<Rightarrow> cell list list" where
  "table_cells t = map (map (tcs t)) (rows t)"

definition shown :: "error + document \<times> nat \<Rightarrow> error + (cell list list list \<times> para list) \<times> nat" where
  "shown r =
     (case r of
        Inl e \<Rightarrow> Inl e
      | Inr (doc, filled) \<Rightarrow> Inr ((map table_cells (tables doc), paragraphs doc), filled))"

subsection \<open>Properties of the table strategy\<close>

lemma docx_label_map_skip:
  "\<not> usable (mvalue m) \<Longrightarrow>
     docx_label_map_loop (xs @ m # ys) d = docx_label_map_loop (xs @ ys) d"
  by (induction xs arbitrary: d) (auto simp: usable_def Let_def split: option.splits)

lemma unique_cells_loop_distinct:
  "distinct (unique_cells_loop cs seen) \<and> set (unique_cells_loop cs seen) = set cs - set seen"
  by (induction cs arbitrary: seen) auto
















subsection \<open>Properties of the inline strategy\<close>






declare parse_template.simps [simp del]












lemma example_inline_colon:
  "shown (fill_docx \<lparr>tables = [], paragraphs = [[plain_run ''Company Name: '', plain_run ''________'']]\<rparr>
     [label_entry ''Company Name'' (Some ''Acme Co'')]) =
   Inr (([], [[plain_run ''Company Name: Acme Co'', plain_run []]]), 1)"
  by code_simp




section \<open>The fixed-layout-page writer \<open>fill_pdf\<close>\<close>

subsection \<open>Pages, form fields and files\<close>

text \<open>
  What the page libraries report of a document: per page its size, the cell boxes of the
  tables found (a box is x0, top, x1, bottom; a cell may have none), the words with their
  boxes, and the text drawn over the page by a merged overlay; for the whole document its
  interactive form fields, each with its name, the page its widget is on and its value.
  Lengths are numbers of layout units, taken as rationals.
\<close>

record word =
  w_x0 :: rat
  w_x1 :: rat
  w_top :: rat
  w_bottom :: rat
  w_text :: string

type_synonym bbox = "rat \<times> rat \<times> rat \<times> rat"

record drawn_text =
  at_x :: rat
  at_y :: rat
  size_pt :: nat
  shown_text :: string

record page =
  height :: rat
  width :: rat
  page_tables :: "bbox option list list list"
  page_words :: "word list"
  overlay :: "drawn_text list"

record form_field =
  field_name :: string
  field_page :: nat
  field_value :: "string option"

record pdf =
  form_fields :: "form_field list"
  pages :: "page list"

text \<open>
  The writer reads and writes files by path. The model keeps the content of every path;
  opening a path that holds no document of this format makes the library raise.
\<close>

datatype file_content = PdfFile pdf | TextFile string | OtherFile string

type_synonym files = "string \<Rightarrow> file_content option"

definition open_pdf :: "files \<Rightarrow> string \<Rightarrow> error + pdf" where
  "open_pdf fs path =
     (case fs path of
        None \<Rightarrow> Inl FileNotFoundError
      | Some (PdfFile d) \<Rightarrow> Inr d
      | Some other \<Rightarrow> Inl LibraryError)"

subsection \<open>Interactive fields\<close>

text \<open>The dict \<open>label_map\<close> of \<open>_fill_pdf_fields\<close>: the label stripped and lower-cased.\<close>

fun fields_label_map_loop ::
  "field_mapping list \<Rightarrow> (string \<times> string) list \<Rightarrow> (string \<times> string) list" where
  "fields_label_map_loop [] label_map = label_map"
| "fields_label_map_loop (m # ms) label_map =
     (let label = lower (strip (case form_label m of None \<Rightarrow> [] | Some l \<Rightarrow> l))
      in case mvalue m of
           None \<Rightarrow> fields_label_map_loop ms label_map
         | Some v \<Rightarrow>
             if label \<noteq> [] \<and> v \<noteq> [] \<and> v \<noteq> ''null''
             then fields_label_map_loop ms (dict_set label v label_map)
             else fields_label_map_loop ms label_map)"

text \<open>
  \<open>writer.update_page_form_field_values(writer.pages[0], {field_name: value})\<close>: the fields
  of that name whose widget is on the first page take the value; without a page,
  \<open>pages[0]\<close> raises.
\<close>

definition update_page_form_field_values :: "pdf \<Rightarrow> string \<Rightarrow> string \<Rightarrow> error + pdf" where
  "update_page_form_field_values d name v =
     (if pages d = [] then Inl IndexError
      else Inr (d\<lparr>form_fields :=
                   map (\<lambda>f. if field_name f = name \<and> field_page f = 0
                             then f\<lparr>field_value := Some v\<rparr> else f) (form_fields d)\<rparr>))"

text \<open>
  \<open>reader.get_fields()\<close> is a dict by field name: each name once, in order of first
  occurrence.
\<close>

definition get_fields :: "pdf \<Rightarrow> string list" where
  "get_fields d = rev (remdups (rev (map field_name (form_fields d))))"

text \<open>
  The loop over the fields: the first label that occurs in the field name (stripped and
  lower-cased), or the name in the label, gives the value, and the field is counted.
\<close>

fun fields_loop ::
  "string list \<Rightarrow> (string \<times> string) list \<Rightarrow> pdf \<Rightarrow> nat \<Rightarrow> error + pdf \<times> nat" where
  "fields_loop [] label_map writer filled = Inr (writer, filled)"
| "fields_loop (name # names) label_map writer filled =
     (case fuzzy_match label_map (lower (strip name)) of
        None \<Rightarrow> fields_loop names label_map writer filled
      | Some v \<Rightarrow>
          (case update_page_form_field_values writer name v of
             Inl e \<Rightarrow> Inl e
           | Inr writer' \<Rightarrow> fields_loop names label_map writer' (filled + 1)))"

definition fill_pdf_fields ::
  "files \<Rightarrow> string \<Rightarrow> string \<Rightarrow> field_mapping list \<Rightarrow> pdf \<Rightarrow> error + files \<times> nat" where
  "fill_pdf_fields fs input_path output_path mappings reader =
     (case fields_loop (get_fields reader) (fields_label_map_loop mappings []) reader 0 of
        Inl e \<Rightarrow> Inl e
      | Inr (writer, filled) \<Rightarrow> Inr (fs(output_path \<mapsto> PdfFile writer), filled))"

subsection \<open>Overlay positions\<close>

text \<open>
  The dict \<open>label_map\<close> of \<open>_fill_pdf_overlay\<close>: as for the word-processor writer, with
  trailing colons also taken off the variant without bracketed notes.
\<close>

fun overlay_label_map_loop ::
  "field_mapping list \<Rightarrow> (string \<times> string) list \<Rightarrow> (string \<times> string) list" where
  "overlay_label_map_loop [] label_map = label_map"
| "overlay_label_map_loop (m # ms) label_map =
     (let label = rstrip_colon (lower (strip (case form_label m of None \<Rightarrow> [] | Some l \<Rightarrow> l)))
      in case mvalue m of
           None \<Rightarrow> overlay_label_map_loop ms label_map
         | Some v \<Rightarrow>
             if label \<noteq> [] \<and> v \<noteq> [] \<and> v \<noteq> ''null''
             then (let label_map1 = dict_set label v label_map;
                       clean = rstrip_colon (strip (remove_parens label))
                   in overlay_label_map_loop ms
                        (if clean \<noteq> [] \<and> clean \<noteq> label then dict_set clean v label_map1
                         else label_map1))
             else overlay_label_map_loop ms label_map)"

record field_position =
  fp_page :: nat
  fp_x :: rat
  fp_y :: rat
  fp_value :: string
  fp_font_size :: nat
  fp_page_height :: rat
  fp_page_width :: rat

text \<open>
  The text of a cell: the words whose box lies in the cell's box widened by 2, ordered by
  top and then x0, joined by single spaces and stripped.
\<close>

definition inside_cell :: "word \<Rightarrow> bbox \<Rightarrow> bool" where
  "inside_cell w b =
     (case b of (cx0, ctop, cx1, cbottom) \<Rightarrow>
        w_x0 w \<ge> cx0 - 2 \<and> w_x1 w \<le> cx1 + 2 \<and> w_top w \<ge> ctop - 2 \<and> w_bottom w \<le> cbottom + 2)"

definition cell_entry :: "word list \<Rightarrow> bbox option \<Rightarrow> string \<times> bbox option" where
  "cell_entry ws cell_bbox =
     (case cell_bbox of
        None \<Rightarrow> ([], None)
      | Some b \<Rightarrow>
          (strip (join '' '' (map w_text
              (sort_key (\<lambda>w. (w_top w, w_x0 w)) (filter (\<lambda>w. inside_cell w b) ws)))),
           Some b))"

text \<open>
  The loop over the labels stops at the first label that matches the cell text; the loop
  over the cells to the right stops at the first cell with a box whose text is shorter
  than 3 characters or equal to the label cell's text.
\<close>

fun first_label :: "(string \<times> string) list \<Rightarrow> string \<Rightarrow> string \<Rightarrow> string option" where
  "first_label [] text_lower text_clean = None"
| "first_label ((label, v) # rest) text_lower text_clean =
     (if text_lower = label \<or> text_clean = label \<or> (contains label text_lower \<and> length label > 3)
      then Some v
      else first_label rest text_lower text_clean)"

fun next_slot :: "string \<Rightarrow> (string \<times> bbox option) list \<Rightarrow> bbox option" where
  "next_slot t [] = None"
| "next_slot t ((next_text, next_bbox) # rest) =
     (case next_bbox of
        None \<Rightarrow> next_slot t rest
      | Some b \<Rightarrow> if length next_text < 3 \<or> next_text = t then Some b else next_slot t rest)"

definition is_dupe :: "field_position list \<Rightarrow> rat \<Rightarrow> rat \<Rightarrow> bool" where
  "is_dupe field_positions fill_x fill_y =
     list_ex (\<lambda>fp. \<bar>fp_y fp - fill_y\<bar> < 5 \<and> \<bar>fp_x fp - fill_x\<bar> < 5) field_positions"

fun row_loop ::
  "(string \<times> string) list \<Rightarrow> nat \<Rightarrow> rat \<Rightarrow> rat \<Rightarrow> (string \<times> bbox option) list \<Rightarrow>
   field_position list \<Rightarrow> field_position list" where
  "row_loop label_map page_idx ph pw [] field_positions = field_positions"
| "row_loop label_map page_idx ph pw ((t, bbox_i) # rest) field_positions =
     (if t = [] \<or> bbox_i = None then row_loop label_map page_idx ph pw rest field_positions
      else
        (let text_lower = strip (rstrip_colon (lower t));
             text_clean = strip (remove_parens text_lower)
         in case first_label label_map text_lower text_clean of
              None \<Rightarrow> row_loop label_map page_idx ph pw rest field_positions
            | Some v \<Rightarrow>
                (case next_slot t rest of
                   None \<Rightarrow> row_loop label_map page_idx ph pw rest field_positions
                 | Some (cx0, ctop, cx1, cbottom) \<Rightarrow>
                     (let fill_x = cx0 + 4; fill_y = ctop + 3 in
                      if is_dupe field_positions fill_x fill_y
                      then row_loop label_map page_idx ph pw rest field_positions
                      else row_loop label_map page_idx ph pw rest
                             (field_positions @
                                [\<lparr>fp_page = page_idx, fp_x = fill_x, fp_y = fill_y, fp_value = v,
                                  fp_font_size = 8, fp_page_height = ph, fp_page_width = pw\<rparr>])))))"

fun table_rows_loop ::
  "(string \<times> string) list \<Rightarrow> nat \<Rightarrow> page \<Rightarrow> bbox option list list \<Rightarrow>
   field_position list \<Rightarrow> field_position list" where
  "table_rows_loop label_map page_idx pg [] field_positions = field_positions"
| "table_rows_loop label_map page_idx pg (row_cells # later) field_positions =
     (if row_cells = [] then table_rows_loop label_map page_idx pg later field_positions
      else table_rows_loop label_map page_idx pg later
             (row_loop label_map page_idx (height pg) (width pg)
                (map (cell_entry (page_words pg)) row_cells) field_positions))"

fun page_tables_loop ::
  "(string \<times> string) list \<Rightarrow> nat \<Rightarrow> page \<Rightarrow> bbox option list list list \<Rightarrow>
   field_position list \<Rightarrow> field_position list" where
  "page_tables_loop label_map page_idx pg [] field_positions = field_positions"
| "page_tables_loop label_map page_idx pg (t # ts) field_positions =
     page_tables_loop label_map page_idx pg ts
       (table_rows_loop label_map page_idx pg t field_positions)"

fun pages_loop ::
  "(string \<times> string) list \<Rightarrow> nat \<Rightarrow> page list \<Rightarrow> field_position list \<Rightarrow> field_position list" where
  "pages_loop label_map page_idx [] field_positions = field_positions"
| "pages_loop label_map page_idx (pg # pgs) field_positions =
     pages_loop label_map (page_idx + 1) pgs
       (page_tables_loop label_map page_idx pg (page_tables pg) field_positions)"

subsection \<open>The fill guide and the overlay\<close>

text \<open>\<open>output_path.replace(".pdf", "_fill_guide.txt")\<close>: every occurrence, from the left.\<close>

function replace_pdf_ext :: "string \<Rightarrow> string" where
  "replace_pdf_ext [] = []"
| "replace_pdf_ext (c # cs) =
     (if starts_with ''.pdf'' (c # cs) then ''_fill_guide.txt'' @ replace_pdf_ext (drop 3 cs)
      else c # replace_pdf_ext cs)"
  by pat_completeness auto
termination
  by (relation "measure length") auto

text \<open>The lines of the guide, one per mapping, and the count the fallback returns.\<close>

definition guide_line :: "field_mapping \<Rightarrow> string" where
  "guide_line m =
     (let lbl = (case form_label m of None \<Rightarrow> ''Unknown'' | Some l \<Rightarrow> l) in
      case mvalue m of
        None \<Rightarrow> ''  '' @ lbl @ '': [NOT FOUND]''
      | Some val \<Rightarrow>
          if val \<noteq> [] \<and> val \<noteq> ''null'' then ''  '' @ lbl @ '': '' @ val
          else ''  '' @ lbl @ '': [NOT FOUND]'')"

definition guide_text :: "field_mapping list \<Rightarrow> string" where
  "guide_text mappings =
     join [CHR 0x0A]
       ([''VENDOR FORM FILL GUIDE'', replicate 50 (CHR ''=''), []] @ map guide_line mappings)"

definition guide_filled :: "field_mapping list \<Rightarrow> nat" where
  "guide_filled mappings = length (filter (\<lambda>m. usable (mvalue m)) mappings)"

text \<open>
  \<open>shutil.copy2(src, dst)\<close>: raises when both are the same file (the same path, in the
  model) or there is no source.
\<close>

definition copy2 :: "files \<Rightarrow> string \<Rightarrow> string \<Rightarrow> error + files" where
  "copy2 fs src dst =
     (if src = dst then Inl SameFileError
      else (case fs src of
              None \<Rightarrow> Inl FileNotFoundError
            | Some f \<Rightarrow> Inr (fs(dst \<mapsto> f))))"

text \<open>
  The overlay of a page: the values at their positions, in the page's own coordinates,
  with the height taken from the first position of that page.
\<close>

definition draw_page :: "field_position list \<Rightarrow> nat \<Rightarrow> page \<Rightarrow> page" where
  "draw_page field_positions page_idx pg =
     (case filter (\<lambda>fp. fp_page fp = page_idx) field_positions of
        [] \<Rightarrow> pg
      | fp0 # others \<Rightarrow>
          pg\<lparr>overlay := overlay pg @
               map (\<lambda>fp. \<lparr>at_x = fp_x fp,
                          at_y = fp_page_height fp0 - fp_y fp - of_nat (fp_font_size fp) - 2,
                          size_pt = fp_font_size fp, shown_text = fp_value fp\<rparr>)
                   (fp0 # others)\<rparr>)"

fun draw_pages :: "field_position list \<Rightarrow> nat \<Rightarrow> page list \<Rightarrow> page list" where
  "draw_pages field_positions page_idx [] = []"
| "draw_pages field_positions page_idx (pg # pgs) =
     draw_page field_positions page_idx pg # draw_pages field_positions (page_idx + 1) pgs"

subsection \<open>The writer\<close>

definition fill_pdf_overlay ::
  "files \<Rightarrow> string \<Rightarrow> string \<Rightarrow> field_mapping list \<Rightarrow> error + files \<times> nat" where
  "fill_pdf_overlay fs input_path output_path mappings =
     (case open_pdf fs input_path of
        Inl e \<Rightarrow> Inl e
      | Inr d \<Rightarrow>
          (let label_map = overlay_label_map_loop mappings [];
               field_positions = pages_loop label_map 0 (pages d) []
           in if field_positions = []
              then (let guide_path = replace_pdf_ext output_path;
                        fs1 = fs(guide_path \<mapsto> TextFile (guide_text mappings))
                    in case copy2 fs1 input_path output_path of
                         Inl e \<Rightarrow> Inl e
                       | Inr fs2 \<Rightarrow> Inr (fs2, guide_filled mappings))
              else Inr (fs(output_path \<mapsto>
                            PdfFile (d\<lparr>pages := draw_pages field_positions 0 (pages d)\<rparr>)),
                        length field_positions)))"

definition fill_pdf ::
  "files \<Rightarrow> string \<Rightarrow> string \<Rightarrow> field_mapping list \<Rightarrow> error + files \<times> nat" where
  "fill_pdf fs input_path output_path mappings =
     (case open_pdf fs input_path of
        Inl e \<Rightarrow> Inl e
      | Inr reader \<Rightarrow>
          if get_fields reader \<noteq> []
          then fill_pdf_fields fs input_path output_path mappings reader
          else fill_pdf_overlay fs input_path output_path mappings)"

text \<open>
  Sample documents: a page without fields and tables, and a page with one table row whose
  first cell reads \<open>Company Name:\<close>. What a run leaves at the output path, with the count,
  is \<open>pdf_result\<close>.
\<close>

definition scanned_pdf :: pdf where
  "scanned_pdf =
     \<lparr>form_fields = [],
      pages = [\<lparr>height = 792, width = 612, page_tables = [], page_words = [], overlay = []\<rparr>]\<rparr>"

definition table_pdf :: pdf where
  "table_pdf =
     \<lparr>form_fields = [],
      pages = [\<lparr>height = 792, width = 612,
                page_tables = [[[Some (50, 100, 200, 120), Some (200, 100, 400, 120)]]],
                page_words = [\<lparr>w_x0 = 52, w_x1 = 90, w_top = 104, w_bottom = 114, w_text = ''Company''\<rparr>,
                              \<lparr>w_x0 = 94, w_x1 = 120, w_top = 104, w_bottom = 114, w_text = ''Name:''\<rparr>],
                overlay = []\<rparr>]\<rparr>"

definition pdf_result :: "string \<Rightarrow> error + files \<times> nat \<Rightarrow> error + file_content option \<times> nat" where
  "pdf_result output_path r =
     (case r of Inl e \<Rightarrow> Inl e | Inr (fs, filled) \<Rightarrow> Inr (fs output_path, filled))"

definition sample_document :: document where
  "sample_document =
     \<lparr>tables = [one_row_table (text_cell ''Company Name'') empty_cell,
                one_row_table (text_cell ''Fax'') empty_cell],
      paragraphs = [[plain_run ''Fax: ____'']]\<rparr>"

subsection \<open>The fill-guide fallback\<close>

lemma fill_pdf_fallback:
  assumes "fs ip = Some (PdfFile d)" "get_fields d = []"
      and "pages_loop (overlay_label_map_loop ms []) 0 (pages d) [] = []"
      and "ip \<noteq> op"
  shows "fill_pdf fs ip op ms =
           Inr ((fs(replace_pdf_ext op \<mapsto> TextFile (guide_text ms)))
                  (op := (fs(replace_pdf_ext op \<mapsto> TextFile (guide_text ms))) ip),
                guide_filled ms)"
  using assms
  by (auto simp: fill_pdf_def fill_pdf_overlay_def open_pdf_def copy2_def Let_def)

lemma fill_pdf_fallback_guide_kept:
  assumes "fs ip = Some (PdfFile d)" "get_fields d = []"
      and "pages_loop (overlay_label_map_loop ms []) 0 (pages d) [] = []"
      and "ip \<noteq> op" "replace_pdf_ext op \<noteq> op" "replace_pdf_ext op \<noteq> ip"
  shows "\<exists>fs'. fill_pdf fs ip op ms = Inr (fs', guide_filled ms) \<and>
           fs' op = Some (PdfFile d) \<and>
           fs' (replace_pdf_ext op) = Some (TextFile (guide_text ms))"
  using assms(4,5,6)
  unfolding fill_pdf_fallback [where fs = fs and ip = ip and d = d and ms = ms and op = op,
      OF assms(1,2,3,4)]
  by (simp add: assms(1))

lemma fill_pdf_fallback_guide_lost:
  assumes "fs ip = Some (PdfFile d)" "get_fields d = []"
      and "pages_loop (overlay_label_map_loop ms []) 0 (pages d) [] = []"
      and "ip \<noteq> op" "replace_pdf_ext op = op"
  shows "fill_pdf fs ip op ms = Inr (fs(op \<mapsto> PdfFile d), guide_filled ms)"
  using assms(4)
  unfolding fill_pdf_fallback [where fs = fs and ip = ip and d = d and ms = ms and op = op,
      OF assms(1,2,3,4)] assms(5)
  by (simp add: assms(1))

text \<open>
  C9 does not hold of the code. The guide's path is the output path with every \<open>.pdf\<close>
  replaced; an output path without \<open>.pdf\<close> in lower case, such as \<open>FILLED_form.PDF\<close>, is its
  own guide path. The guide is written there and then overwritten by the copy of the
  input: afterwards the files are the input and its copy, and no guide exists.
\<close>

theorem fill_pdf_guide_overwritten:
  "replace_pdf_ext ''FILLED_form.PDF'' = ''FILLED_form.PDF'' \<and>
   fill_pdf [''form.PDF'' \<mapsto> PdfFile scanned_pdf] ''form.PDF'' ''FILLED_form.PDF''
     [label_entry ''Company Name'' (Some ''Acme Co'')] =
   Inr ([''form.PDF'' \<mapsto> PdfFile scanned_pdf, ''FILLED_form.PDF'' \<mapsto> PdfFile scanned_pdf], 1)"
proof -
  have r: "replace_pdf_ext ''FILLED_form.PDF'' = ''FILLED_form.PDF''" by code_simp
  have n: "guide_filled [label_entry ''Company Name'' (Some ''Acme Co'')] = 1" by code_simp
  have p: "pages_loop (overlay_label_map_loop [label_entry ''Company Name'' (Some ''Acme Co'')] [])
             0 (pages scanned_pdf) [] = []"
    by (simp add: scanned_pdf_def)
  have "fill_pdf [''form.PDF'' \<mapsto> PdfFile scanned_pdf] ''form.PDF'' ''FILLED_form.PDF''
     [label_entry ''Company Name'' (Some ''Acme Co'')] =
     Inr ([''form.PDF'' \<mapsto> PdfFile scanned_pdf, ''FILLED_form.PDF'' \<mapsto> PdfFile scanned_pdf],
          guide_filled [label_entry ''Company Name'' (Some ''Acme Co'')])"
    by (rule fill_pdf_fallback_guide_lost
          [where fs = "[''form.PDF'' \<mapsto> PdfFile scanned_pdf]" and d = scanned_pdf, OF _ _ p _ r])
       (simp_all add: scanned_pdf_def get_fields_def)
  with r n show ?thesis by simp
qed

section \<open>Entries without a usable value, and confidence\<close>

lemma fill_xlsx_skip:
  assumes "\<not> usable (mvalue m)"
  shows "fill_xlsx L wb (xs @ m # ys) = fill_xlsx L wb (xs @ ys)"
  unfolding fill_xlsx_def cells_to_fill_skip [OF assms] ..

lemma fill_docx_skip:
  assumes "\<not> usable (mvalue m)"
  shows "fill_docx doc (xs @ m # ys) = fill_docx doc (xs @ ys)"
  unfolding fill_docx_def docx_label_map_skip [OF assms] ..

lemma fields_label_map_skip:
  "\<not> usable (mvalue m) \<Longrightarrow>
     fields_label_map_loop (xs @ m # ys) d = fields_label_map_loop (xs @ ys) d"
  by (induction xs arbitrary: d) (auto simp: usable_def Let_def split: option.splits)

lemma overlay_label_map_skip:
  "\<not> usable (mvalue m) \<Longrightarrow>
     overlay_label_map_loop (xs @ m # ys) d = overlay_label_map_loop (xs @ ys) d"
  by (induction xs arbitrary: d) (auto simp: usable_def Let_def split: option.splits)

lemma overlay_positions_skip:
  assumes "\<not> usable (mvalue m)"
  shows "pages_loop (overlay_label_map_loop (xs @ m # ys) []) i pgs acc =
         pages_loop (overlay_label_map_loop (xs @ ys) []) i pgs acc"
  unfolding overlay_label_map_skip [OF assms] ..

lemma guide_filled_skip:
  "\<not> usable (mvalue m) \<Longrightarrow> guide_filled (xs @ m # ys) = guide_filled (xs @ ys)"
  by (simp add: guide_filled_def)

lemma fill_pdf_fields_skip:
  assumes "\<not> usable (mvalue m)"
  shows "fill_pdf_fields fs ip op (xs @ m # ys) reader = fill_pdf_fields fs ip op (xs @ ys) reader"
  unfolding fill_pdf_fields_def fields_label_map_skip [OF assms] ..

lemma copy2_result:
  "g \<noteq> ip \<Longrightarrow>
     pdf_result op (case copy2 (fs(g \<mapsto> t)) ip op of Inl e \<Rightarrow> Inl e | Inr fs2 \<Rightarrow> Inr (fs2, n)) =
     (if ip = op then Inl SameFileError
      else case fs ip of None \<Rightarrow> Inl FileNotFoundError | Some f \<Rightarrow> Inr (Some f, n))"
  by (auto simp: copy2_def pdf_result_def split: option.splits)

lemma fill_pdf_overlay_skip:
  assumes "\<not> usable (mvalue m)" "replace_pdf_ext op \<noteq> ip"
  shows "pdf_result op (fill_pdf_overlay fs ip op (xs @ m # ys)) =
         pdf_result op (fill_pdf_overlay fs ip op (xs @ ys))"
proof (cases "open_pdf fs ip")
  case (Inl e)
  then show ?thesis by (simp add: fill_pdf_overlay_def)
next
  case (Inr d)
  let ?fp = "pages_loop (overlay_label_map_loop (xs @ ys) []) 0 (pages d) []"
  show ?thesis
  proof (cases "?fp = []")
    case True
    with Inr assms show ?thesis
      by (simp add: fill_pdf_overlay_def overlay_label_map_skip guide_filled_skip copy2_result
          split: option.splits)
  next
    case False
    with Inr assms show ?thesis
      by (simp add: fill_pdf_overlay_def overlay_label_map_skip)
  qed
qed

lemma fill_pdf_skip:
  assumes "\<not> usable (mvalue m)" "replace_pdf_ext op \<noteq> ip"
  shows "pdf_result op (fill_pdf fs ip op (xs @ m # ys)) = pdf_result op (fill_pdf fs ip op (xs @ ys))"
proof (cases "open_pdf fs ip")
  case (Inl e)
  then show ?thesis by (simp add: fill_pdf_def)
next
  case (Inr reader)
  show ?thesis
  proof (cases "get_fields reader = []")
    case True
    with Inr fill_pdf_overlay_skip [OF assms] show ?thesis by (simp add: fill_pdf_def)
  next
    case False
    with Inr fill_pdf_fields_skip [OF assms(1)] show ?thesis by (simp add: fill_pdf_def)
  qed
qed

lemma unusable_null: "mvalue m = None \<or> mvalue m = Some ''null'' \<Longrightarrow> \<not> usable (mvalue m)"
  by (auto simp: usable_def)

text \<open>
  C2: an entry whose value is absent or the text \<open>null\<close> contributes nothing to what any
  writer writes. With the entry anywhere in the sequence, \<open>fill_xlsx\<close> and \<open>fill_docx\<close>
  return exactly what they return without it; so does the interactive-field writer; the
  overlay positions and their values are the same; and what \<open>fill_pdf\<close> leaves at the
  output path, and its count, are the same (the fill guide, a side file, lists the
  entry's label as not found, so the guide's path must not be the input path).
\<close>

theorem null_value_never_written:
  assumes "mvalue m = None \<or> mvalue m = Some ''null''"
  shows "fill_xlsx L wb (xs @ m # ys) = fill_xlsx L wb (xs @ ys) \<and>
         fill_docx doc (xs @ m # ys) = fill_docx doc (xs @ ys) \<and>
         fill_pdf_fields fs ip op (xs @ m # ys) reader = fill_pdf_fields fs ip op (xs @ ys) reader \<and>
         pages_loop (overlay_label_map_loop (xs @ m # ys) []) i pgs acc =
           pages_loop (overlay_label_map_loop (xs @ ys) []) i pgs acc \<and>
         (replace_pdf_ext op \<noteq> ip \<longrightarrow>
            pdf_result op (fill_pdf fs ip op (xs @ m # ys)) = pdf_result op (fill_pdf fs ip op (xs @ ys)))"
proof -
  from assms have u: "\<not> usable (mvalue m)" by (rule unusable_null)
  show ?thesis
    by (simp add: fill_xlsx_skip [OF u] fill_docx_skip [OF u] fill_pdf_fields_skip [OF u]
        overlay_positions_skip [OF u] fill_pdf_skip [OF u])
qed

theorem null_value_never_written_witness:
  "fill_xlsx openpyxl blank_workbook
     ([entry ''B3'' ''Company Name'' (Some ''Acme Co'') ''high''] @
      entry ''B4'' ''Fax'' (Some ''null'') ''high'' # []) =
   fill_xlsx openpyxl blank_workbook ([entry ''B3'' ''Company Name'' (Some ''Acme Co'') ''high''] @ []) \<and>
   fill_docx sample_document
     ([entry ''B3'' ''Company Name'' (Some ''Acme Co'') ''high''] @
      entry ''B4'' ''Fax'' (Some ''null'') ''high'' # []) =
   fill_docx sample_document ([entry ''B3'' ''Company Name'' (Some ''Acme Co'') ''high''] @ []) \<and>
   pdf_result ''out.pdf''
     (fill_pdf [''in.pdf'' \<mapsto> PdfFile table_pdf] ''in.pdf'' ''out.pdf''
        ([entry ''B3'' ''Company Name'' (Some ''Acme Co'') ''high''] @
         entry ''B4'' ''Fax'' (Some ''null'') ''high'' # [])) =
   pdf_result ''out.pdf''
     (fill_pdf [''in.pdf'' \<mapsto> PdfFile table_pdf] ''in.pdf'' ''out.pdf''
        ([entry ''B3'' ''Company Name'' (Some ''Acme Co'') ''high''] @ []))"
proof -
  have v: "mvalue (entry ''B4'' ''Fax'' (Some ''null'') ''high'') = None \<or>
           mvalue (entry ''B4'' ''Fax'' (Some ''null'') ''high'') = Some ''null''"
    by (simp add: entry_def)
  have g: "replace_pdf_ext ''out.pdf'' \<noteq> ''in.pdf''" by code_simp
  from null_value_never_written [OF v, of openpyxl blank_workbook
      "[entry ''B3'' ''Company Name'' (Some ''Acme Co'') ''high'']" "[]" sample_document
      "[''in.pdf'' \<mapsto> PdfFile table_pdf]" "''in.pdf''" "''out.pdf''" table_pdf 0 "[]" "[]"] g
  show ?thesis by blast
qed

lemma cells_to_fill_confidence:
  "cells_to_fill_loop (map (\<lambda>m. m\<lparr>confidence := c m\<rparr>) ms) d = cells_to_fill_loop ms d"
  by (induction ms arbitrary: d) (simp_all split: option.splits)

lemma docx_label_map_confidence:
  "docx_label_map_loop (map (\<lambda>m. m\<lparr>confidence := c m\<rparr>) ms) d = docx_label_map_loop ms d"
  by (induction ms arbitrary: d) (simp_all add: Let_def split: option.splits)

lemma fields_label_map_confidence:
  "fields_label_map_loop (map (\<lambda>m. m\<lparr>confidence := c m\<rparr>) ms) d = fields_label_map_loop ms d"
  by (induction ms arbitrary: d) (simp_all add: Let_def split: option.splits)

lemma overlay_label_map_confidence:
  "overlay_label_map_loop (map (\<lambda>m. m\<lparr>confidence := c m\<rparr>) ms) d = overlay_label_map_loop ms d"
  by (induction ms arbitrary: d) (simp_all add: Let_def split: option.splits)

lemma guide_confidence:
  "guide_text (map (\<lambda>m. m\<lparr>confidence := c m\<rparr>) ms) = guide_text ms \<and>
   guide_filled (map (\<lambda>m. m\<lparr>confidence := c m\<rparr>) ms) = guide_filled ms"
proof -
  have l: "guide_line \<circ> (\<lambda>m. m\<lparr>confidence := c m\<rparr>) = guide_line"
    by (rule ext) (simp add: guide_line_def)
  have u: "(\<lambda>m. usable (mvalue m)) \<circ> (\<lambda>m. m\<lparr>confidence := c m\<rparr>) = (\<lambda>m. usable (mvalue m))"
    by (rule ext) simp
  show ?thesis by (simp add: guide_text_def guide_filled_def filter_map l u)
qed

lemma fill_xlsx_confidence:
  "fill_xlsx L wb (map (\<lambda>m. m\<lparr>confidence := c m\<rparr>) ms) = fill_xlsx L wb ms"
  unfolding fill_xlsx_def cells_to_fill_confidence ..

lemma fill_docx_confidence:
  "fill_docx doc (map (\<lambda>m. m\<lparr>confidence := c m\<rparr>) ms) = fill_docx doc ms"
  unfolding fill_docx_def docx_label_map_confidence ..

lemma fill_pdf_confidence:
  "fill_pdf fs ip op (map (\<lambda>m. m\<lparr>confidence := c m\<rparr>) ms) = fill_pdf fs ip op ms"
  unfolding fill_pdf_def fill_pdf_fields_def fill_pdf_overlay_def fields_label_map_confidence
    overlay_label_map_confidence guide_confidence [THEN conjunct1] guide_confidence [THEN conjunct2] ..

text \<open>
  C1, as stated, fails: the entry for B3 has confidence \<open>none\<close> and a value, and the
  spreadsheet writer writes the value into B3, which was empty.
\<close>

theorem confidence_none_counterexample:
  "confidence (entry ''B3'' ''Company Name'' (Some ''Acme Co'') ''none'') = Some ''none'' \<and>
   fill_xlsx openpyxl blank_workbook [entry ''B3'' ''Company Name'' (Some ''Acme Co'') ''none''] =
     Inr (\<lparr>sheets = [\<lparr>title = ''Sheet1'', cells = [(3, 2) \<mapsto> Cell (Some ''Acme Co'')],
                       merged_cells = []\<rparr>],
           active_index = 0\<rparr>, 1)"
  by (simp add: fill_xlsx_def active_def blank_workbook_def entry_def openpyxl_def
      Worksheet_setitem_def check_string_def illegal_character_def k_B3)

text \<open>
  C1, amended: no writer reads the confidence of an entry; each writer returns the same
  result whatever the confidence fields are. An entry with confidence \<open>none\<close> is left out
  of the output when its value is absent, empty or the text \<open>null\<close>: the writers then
  return what they return without the entry.
\<close>

theorem confidence_not_consulted:
  "fill_xlsx L wb (map (\<lambda>m. m\<lparr>confidence := c m\<rparr>) ms) = fill_xlsx L wb ms \<and>
   fill_docx doc (map (\<lambda>m. m\<lparr>confidence := c m\<rparr>) ms) = fill_docx doc ms \<and>
   fill_pdf fs ip op (map (\<lambda>m. m\<lparr>confidence := c m\<rparr>) ms) = fill_pdf fs ip op ms \<and>
   (confidence m = Some ''none'' \<and> \<not> usable (mvalue m) \<longrightarrow>
      fill_xlsx L wb (xs @ m # ys) = fill_xlsx L wb (xs @ ys) \<and>
      fill_docx doc (xs @ m # ys) = fill_docx doc (xs @ ys) \<and>
      (replace_pdf_ext op \<noteq> ip \<longrightarrow>
         pdf_result op (fill_pdf fs ip op (xs @ m # ys)) = pdf_result op (fill_pdf fs ip op (xs @ ys))))"
  using fill_xlsx_confidence [of L wb c ms] fill_docx_confidence [of doc c ms]
    fill_pdf_confidence [of fs ip op c ms]
    fill_xlsx_skip [of m L wb xs ys] fill_docx_skip [of m doc xs ys] fill_pdf_skip [of m op ip fs xs ys]
  by blast

theorem confidence_not_consulted_witness:
  "fill_xlsx openpyxl blank_workbook
     ([entry ''B3'' ''Company Name'' (Some ''Acme Co'') ''high''] @
      entry ''B4'' ''Fax'' None ''none'' # []) =
   fill_xlsx openpyxl blank_workbook ([entry ''B3'' ''Company Name'' (Some ''Acme Co'') ''high''] @ []) \<and>
   fill_docx sample_document
     ([entry ''B3'' ''Company Name'' (Some ''Acme Co'') ''high''] @
      entry ''B4'' ''Fax'' None ''none'' # []) =
   fill_docx sample_document ([entry ''B3'' ''Company Name'' (Some ''Acme Co'') ''high''] @ []) \<and>
   pdf_result ''out.pdf''
     (fill_pdf [''in.pdf'' \<mapsto> PdfFile table_pdf] ''in.pdf'' ''out.pdf''
        ([entry ''B3'' ''Company Name'' (Some ''Acme Co'') ''high''] @
         entry ''B4'' ''Fax'' None ''none'' # [])) =
   pdf_result ''out.pdf''
     (fill_pdf [''in.pdf'' \<mapsto> PdfFile table_pdf] ''in.pdf'' ''out.pdf''
        ([entry ''B3'' ''Company Name'' (Some ''Acme Co'') ''high''] @ []))"
proof -
  have v: "confidence (entry ''B4'' ''Fax'' None ''none'') = Some ''none'' \<and>
           \<not> usable (mvalue (entry ''B4'' ''Fax'' None ''none''))"
    by (simp add: entry_def usable_def)
  have g: "replace_pdf_ext ''out.pdf'' \<noteq> ''in.pdf''" by code_simp
  from confidence_not_consulted [of openpyxl blank_workbook "\<lambda>m. None" "[]" sample_document
      "[''in.pdf'' \<mapsto> PdfFile table_pdf]" "''in.pdf''" "''out.pdf''"
      "entry ''B4'' ''Fax'' None ''none''"
      "[entry ''B3'' ''Company Name'' (Some ''Acme Co'') ''high'']" "[]"] v g
  show ?thesis by blast
qed

end
